theory Spec2Isabelle
  imports Complex_Main
begin

text \<open>
  A model of the three variants of the example MCP server: src/index.ts (bearer token on
  both routes, no registry), mcp-server/src/index.ts (a registry of transports, a message
  endpoint that answers 200) and part_000 (a registry of transports and servers, a
  most-recent transport that posted messages are handed to). The tool handler and the
  authentication middleware are the same in the three.
\<close>

section \<open>JavaScript strings and values\<close>

text \<open>
  A JavaScript string is a sequence of UTF-16 code units. The regular expression of the
  calculate tool has no \<^verbatim>\<open>u\<close> flag and so works on code units; a code unit is
  modelled by its number. String literals of the source are written with \<open>lit\<close>.
\<close>

type_synonym js_string = "nat list"

definition lit :: "string \<Rightarrow> js_string" where
  "lit s = map of_char s"

text \<open>
  The values a JSON request can carry, and \<^verbatim>\<open>undefined\<close> for an absent property.
  A JSON number is a finite double, hence a rational number.
\<close>

datatype js_value =
    JUndefined
  | JNull
  | JBool bool
  | JNumber rat
  | JString js_string
  | JArray "js_value list"
  | JObject "(js_string \<times> js_value) list"

text \<open>ToBoolean, as applied by \<^verbatim>\<open>!x\<close> and \<^verbatim>\<open>x ? a : b\<close>.\<close>

fun truthy :: "js_value \<Rightarrow> bool" where
  "truthy JUndefined = False"
| "truthy JNull = False"
| "truthy (JBool b) = b"
| "truthy (JNumber q) = (q \<noteq> 0)"
| "truthy (JString s) = (s \<noteq> [])"
| "truthy (JArray _) = True"
| "truthy (JObject _) = True"

text \<open>
  What a \<^verbatim>\<open>throw\<close> carries: an \<^verbatim>\<open>Error\<close> instance with its message, or any
  other value, given by its \<^verbatim>\<open>String(...)\<close> rendering.
\<close>

datatype js_exn = JsError js_string | JsThrown js_string

section \<open>The built-in Map\<close>

text \<open>
  A \<^verbatim>\<open>Map\<close> is kept as the list of its entries in insertion order.
  \<^verbatim>\<open>set\<close> overwrites the value of a key that is present and appends a new key,
  \<^verbatim>\<open>delete\<close> removes the entry of a key, \<^verbatim>\<open>get\<close> returns the value or
  \<^verbatim>\<open>undefined\<close> (\<open>None\<close>), \<^verbatim>\<open>size\<close> counts the entries.
\<close>

type_synonym ('k, 'v) js_map = "('k \<times> 'v) list"

fun js_map_set :: "'k \<Rightarrow> 'v \<Rightarrow> ('k, 'v) js_map \<Rightarrow> ('k, 'v) js_map" where
  "js_map_set k v [] = [(k, v)]"
| "js_map_set k v (e # es) =
     (if fst e = k then (k, v) # es else e # js_map_set k v es)"

fun js_map_delete :: "'k \<Rightarrow> ('k, 'v) js_map \<Rightarrow> ('k, 'v) js_map" where
  "js_map_delete k [] = []"
| "js_map_delete k (e # es) =
     (if fst e = k then js_map_delete k es else e # js_map_delete k es)"

fun js_map_get :: "('k, 'v) js_map \<Rightarrow> 'k \<Rightarrow> 'v option" where
  "js_map_get [] k = None"
| "js_map_get (e # es) k = (if fst e = k then Some (snd e) else js_map_get es k)"

definition js_map_size :: "('k, 'v) js_map \<Rightarrow> nat" where
  "js_map_size m = length m"

definition js_map_keys :: "('k, 'v) js_map \<Rightarrow> 'k list" where
  "js_map_keys m = map fst m"

section \<open>Session identifiers\<close>

text \<open>
  \<^verbatim>\<open>Date.now()\<close> is a number of milliseconds, read from the clock; its
  \<^verbatim>\<open>toString()\<close> is the decimal numeral (a clock reading stays far below the
  size at which \<^verbatim>\<open>toString()\<close> turns to exponent notation).
\<close>

definition digit_char :: "nat \<Rightarrow> nat" where
  "digit_char d = 48 + d"

fun number_toString :: "nat \<Rightarrow> js_string" where
  "number_toString n =
     (if n < 10 then [digit_char n]
      else number_toString (n div 10) @ [digit_char (n mod 10)])"

declare number_toString.simps [simp del]

text \<open>mcp-server/src/index.ts: \<^verbatim>\<open>const sessionId = Date.now().toString()\<close>.\<close>

definition sessionId_v2 :: "nat \<Rightarrow> js_string" where
  "sessionId_v2 now = number_toString now"

text \<open>
  part_000: \<^verbatim>\<open>`session-${Date.now()}-${Math.random().toString(36).substring(7)}`\<close>.
  The second argument is the value of \<^verbatim>\<open>Math.random().toString(36).substring(7)\<close>,
  an input of the model as the clock is.
\<close>

definition sessionId_v3 :: "nat \<Rightarrow> js_string \<Rightarrow> js_string" where
  "sessionId_v3 now rnd = lit ''session-'' @ number_toString now @ lit ''-'' @ rnd"

section \<open>The session registry with a most-recent transport (part_000)\<close>

text \<open>
  Objects made by \<^verbatim>\<open>new SSEServerTransport(...)\<close> and \<^verbatim>\<open>createServer()\<close> are
  known by their identity, a fresh reference for each \<^verbatim>\<open>new\<close>;
  \<^verbatim>\<open>===\<close> on them compares references.
\<close>

type_synonym ref = nat

record session_entry =
  transport :: ref
  server :: ref

text \<open>
  The module-level state: the \<^verbatim>\<open>transports\<close> map, \<^verbatim>\<open>currentTransport\<close>
  (\<open>None\<close> is \<^verbatim>\<open>null\<close>), and the allocator of object references. With them,
  what the event loop holds: the \<^verbatim>\<open>/sse\<close> handlers suspended at
  \<^verbatim>\<open>await serverInstance.connect(transport)\<close> and the \<^verbatim>\<open>close\<close> listeners
  registered on open requests, each a closure over its \<^verbatim>\<open>sessionId\<close> and
  \<^verbatim>\<open>transport\<close>.
\<close>

record server_state =
  transports :: "(js_string, session_entry) js_map"
  currentTransport :: "ref option"
  next_ref :: ref
  pending_connects :: "(js_string \<times> ref) list"
  close_listeners :: "(js_string \<times> ref) list"

definition init_state :: server_state where
  "init_state =
     \<lparr>transports = [], currentTransport = None, next_ref = 0,
      pending_connects = [], close_listeners = []\<rparr>"

text \<open>
  \<^verbatim>\<open>app.get("/sse", ...)\<close> up to
  \<^verbatim>\<open>await serverInstance.connect(transport)\<close>, where the handler is suspended and
  other handlers run.
\<close>

definition sse_open :: "nat \<Rightarrow> js_string \<Rightarrow> server_state \<Rightarrow> server_state" where
  "sse_open now rnd st =
     (let sessionId = sessionId_v3 now rnd;
          t = next_ref st;
          serverInstance = next_ref st + 1
      in st\<lparr>transports :=
              js_map_set sessionId \<lparr>transport = t, server = serverInstance\<rparr> (transports st),
            currentTransport := Some t,
            next_ref := next_ref st + 2,
            pending_connects := pending_connects st @ [(sessionId, t)]\<rparr>)"

text \<open>
  The rest of the \<^verbatim>\<open>try\<close> block, when \<^verbatim>\<open>connect\<close> has returned: it
  registers the \<^verbatim>\<open>close\<close> listener. When \<^verbatim>\<open>connect\<close> throws, the
  \<^verbatim>\<open>catch\<close> block answers 500 if no header was sent, and no listener is registered.
\<close>

definition sse_connected :: "js_string \<Rightarrow> ref \<Rightarrow> server_state \<Rightarrow> server_state" where
  "sse_connected sessionId t st = st\<lparr>close_listeners := close_listeners st @ [(sessionId, t)]\<rparr>"

text \<open>The body of the \<^verbatim>\<open>req.on("close", ...)\<close> listener of a session.\<close>

definition on_close :: "js_string \<Rightarrow> ref \<Rightarrow> server_state \<Rightarrow> server_state" where
  "on_close sessionId t st =
     st\<lparr>transports := js_map_delete sessionId (transports st),
        currentTransport := (if currentTransport st = Some t then None else currentTransport st)\<rparr>"

text \<open>
  A posted request. \<open>session_id\<close> is the session identifier the client correlates the
  message with (the \<^verbatim>\<open>X-Session-ID\<close> value it was issued), if it sends one.
\<close>

record request =
  session_id :: "js_string option"
  body :: js_string

text \<open>
  The transport class of the protocol library: whether it has a
  \<^verbatim>\<open>handlePostMessage\<close> method and what a call of it does. The call either returns,
  having answered with a status, or throws, with the response already sent
  (\<^verbatim>\<open>res.headersSent\<close>, \<open>Some status\<close>) or not (\<open>None\<close>).
\<close>

datatype hpm_outcome = HpmReturned nat | HpmThrew "nat option"

record sdk =
  has_handlePostMessage :: bool
  handlePostMessage :: "ref \<Rightarrow> request \<Rightarrow> hpm_outcome"

record post_response =
  delivered_to :: "ref option"
  status :: nat

text \<open>\<^verbatim>\<open>app.post("/message", ...)\<close> of part_000. It changes no module-level state.\<close>

definition post_message :: "sdk \<Rightarrow> server_state \<Rightarrow> request \<Rightarrow> post_response" where
  "post_message lib st req =
     (case currentTransport st of
        Some t \<Rightarrow>
          if has_handlePostMessage lib then
            (case handlePostMessage lib t req of
               HpmReturned s \<Rightarrow> \<lparr>delivered_to = Some t, status = s\<rparr>
             | HpmThrew (Some s) \<Rightarrow> \<lparr>delivered_to = Some t, status = s\<rparr>
             | HpmThrew None \<Rightarrow> \<lparr>delivered_to = Some t, status = 500\<rparr>)
          else \<lparr>delivered_to = None, status = 202\<rparr>
      | None \<Rightarrow> \<lparr>delivered_to = None, status = 202\<rparr>)"

text \<open>What happens to the server, in the order it happens.\<close>

datatype event =
    SseOpen nat js_string
  | ConnectResolved js_string ref
  | ConnectRejected js_string ref
  | Close js_string ref
  | PostMessage request

text \<open>
  A suspended handler resumes once, with \<^verbatim>\<open>connect\<close> returned or thrown. A
  \<^verbatim>\<open>close\<close> event runs a listener that is registered, once; for a request without
  a registered listener nothing runs.
\<close>

fun apply_event :: "server_state \<Rightarrow> event \<Rightarrow> server_state" where
  "apply_event st (SseOpen now rnd) = sse_open now rnd st"
| "apply_event st (ConnectResolved sessionId t) =
     (if (sessionId, t) \<in> set (pending_connects st)
      then (sse_connected sessionId t st)
             \<lparr>pending_connects := remove1 (sessionId, t) (pending_connects st)\<rparr>
      else st)"
| "apply_event st (ConnectRejected sessionId t) =
     (if (sessionId, t) \<in> set (pending_connects st)
      then st\<lparr>pending_connects := remove1 (sessionId, t) (pending_connects st)\<rparr>
      else st)"
| "apply_event st (Close sessionId t) =
     (if (sessionId, t) \<in> set (close_listeners st)
      then (on_close sessionId t st)\<lparr>close_listeners := remove1 (sessionId, t) (close_listeners st)\<rparr>
      else st)"
| "apply_event st (PostMessage req) = st"

definition run :: "event list \<Rightarrow> server_state" where
  "run evs = foldl apply_event init_state evs"

text \<open>The session identifiers generated during a run, one for each connection opened.\<close>

fun generated_ids :: "event list \<Rightarrow> js_string list" where
  "generated_ids [] = []"
| "generated_ids (SseOpen now rnd # evs) = sessionId_v3 now rnd # generated_ids evs"
| "generated_ids (_ # evs) = generated_ids evs"

text \<open>The routing the specification describes, to compare \<open>post_message\<close> with.\<close>

definition spec_route :: "server_state \<Rightarrow> request \<Rightarrow> ref option" where
  "spec_route st req =
     (case session_id req of
        None \<Rightarrow> currentTransport st
      | Some sid \<Rightarrow>
          (case js_map_get (transports st) sid of
             None \<Rightarrow> currentTransport st
           | Some e \<Rightarrow> Some (transport e)))"

text \<open>The invariant of the most-recent marker.\<close>

definition current_registered :: "server_state \<Rightarrow> bool" where
  "current_registered st =
     (case currentTransport st of
        None \<Rightarrow> True
      | Some t \<Rightarrow> t \<in> set (map (transport \<circ> snd) (transports st)))"

section \<open>The registry of mcp-server/src/index.ts\<close>

text \<open>
  This variant maps a session identifier to the transport itself, has one global server,
  and its message endpoint answers 200 without looking at the registry.
\<close>

record registry_state =
  transports_v2 :: "(js_string, ref) js_map"
  next_ref_v2 :: ref
  pending_connects_v2 :: "js_string list"
  close_listeners_v2 :: "js_string list"

definition init_state_v2 :: registry_state where
  "init_state_v2 =
     \<lparr>transports_v2 = [], next_ref_v2 = 0, pending_connects_v2 = [], close_listeners_v2 = []\<rparr>"

definition sse_open_v2 :: "nat \<Rightarrow> registry_state \<Rightarrow> registry_state" where
  "sse_open_v2 now st =
     (let t = next_ref_v2 st;
          sessionId = sessionId_v2 now
      in st\<lparr>transports_v2 := js_map_set sessionId t (transports_v2 st),
            next_ref_v2 := next_ref_v2 st + 1,
            pending_connects_v2 := pending_connects_v2 st @ [sessionId]\<rparr>)"

definition sse_connected_v2 :: "js_string \<Rightarrow> registry_state \<Rightarrow> registry_state" where
  "sse_connected_v2 sessionId st = st\<lparr>close_listeners_v2 := close_listeners_v2 st @ [sessionId]\<rparr>"

definition on_close_v2 :: "js_string \<Rightarrow> registry_state \<Rightarrow> registry_state" where
  "on_close_v2 sessionId st = st\<lparr>transports_v2 := js_map_delete sessionId (transports_v2 st)\<rparr>"

definition post_message_v2 :: "registry_state \<Rightarrow> request \<Rightarrow> post_response" where
  "post_message_v2 st req = \<lparr>delivered_to = None, status = 200\<rparr>"

datatype event_v2 =
    SseOpen2 nat
  | ConnectResolved2 js_string
  | ConnectRejected2 js_string
  | Close2 js_string
  | PostMessage2 request

fun apply_event_v2 :: "registry_state \<Rightarrow> event_v2 \<Rightarrow> registry_state" where
  "apply_event_v2 st (SseOpen2 now) = sse_open_v2 now st"
| "apply_event_v2 st (ConnectResolved2 sessionId) =
     (if sessionId \<in> set (pending_connects_v2 st)
      then (sse_connected_v2 sessionId st)
             \<lparr>pending_connects_v2 := remove1 sessionId (pending_connects_v2 st)\<rparr>
      else st)"
| "apply_event_v2 st (ConnectRejected2 sessionId) =
     (if sessionId \<in> set (pending_connects_v2 st)
      then st\<lparr>pending_connects_v2 := remove1 sessionId (pending_connects_v2 st)\<rparr>
      else st)"
| "apply_event_v2 st (Close2 sessionId) =
     (if sessionId \<in> set (close_listeners_v2 st)
      then (on_close_v2 sessionId st)\<lparr>close_listeners_v2 := remove1 sessionId (close_listeners_v2 st)\<rparr>
      else st)"
| "apply_event_v2 st (PostMessage2 req) = st"

definition run_v2 :: "event_v2 list \<Rightarrow> registry_state" where
  "run_v2 evs = foldl apply_event_v2 init_state_v2 evs"

section \<open>Authentication middleware\<close>

text \<open>
  What a middleware does with a request: it answers with a status and an error message,
  or calls \<^verbatim>\<open>next()\<close>.
\<close>

datatype auth_result = Respond nat js_string | Next

text \<open>
  \<^verbatim>\<open>authenticate\<close>, with the configured \<^verbatim>\<open>API_KEY\<close> and the value of
  \<^verbatim>\<open>req.headers.authorization\<close> (\<open>None\<close> when the header is absent).
  \<^verbatim>\<open>startsWith("Bearer ")\<close> compares the first seven code units,
  \<^verbatim>\<open>substring(7)\<close> drops them.
\<close>

definition authenticate :: "js_string \<Rightarrow> js_string option \<Rightarrow> auth_result" where
  "authenticate API_KEY authorization =
     (case authorization of
        None \<Rightarrow> Respond 401 (lit ''Missing or invalid authorization header'')
      | Some authHeader \<Rightarrow>
          if authHeader = [] \<or> take 7 authHeader \<noteq> lit ''Bearer ''
          then Respond 401 (lit ''Missing or invalid authorization header'')
          else (let token = drop 7 authHeader
                in if token \<noteq> API_KEY then Respond 403 (lit ''Invalid API key'') else Next))"

text \<open>
  A route \<^verbatim>\<open>app.get(path, authenticate, handler)\<close>: the handler runs when the
  middleware calls \<^verbatim>\<open>next()\<close>, and only then.
\<close>

definition with_authenticate ::
  "js_string \<Rightarrow> ('s \<Rightarrow> 'q \<Rightarrow> 'r \<times> 's) \<Rightarrow> 's \<Rightarrow> js_string option \<Rightarrow> 'q \<Rightarrow> (auth_result + 'r) \<times> 's" where
  "with_authenticate API_KEY handler st authorization req =
     (case authenticate API_KEY authorization of
        Next \<Rightarrow> (case handler st req of (r, st') \<Rightarrow> (Inr r, st'))
      | Respond s m \<Rightarrow> (Inl (Respond s m), st))"

text \<open>
  src/index.ts, the variant that uses the middleware. Its session state is the transport
  the one global server was last connected to; its message endpoint answers 200.
\<close>

record state_v1 =
  server_transport :: "ref option"
  next_ref_v1 :: ref

definition sse_handler_v1 :: "state_v1 \<Rightarrow> unit \<Rightarrow> unit \<times> state_v1" where
  "sse_handler_v1 st req =
     (let t = next_ref_v1 st
      in ((), st\<lparr>server_transport := Some t, next_ref_v1 := next_ref_v1 st + 1\<rparr>))"

definition message_handler_v1 :: "state_v1 \<Rightarrow> request \<Rightarrow> post_response \<times> state_v1" where
  "message_handler_v1 st req = (\<lparr>delivered_to = None, status = 200\<rparr>, st)"

definition sse_route_v1 ::
  "js_string \<Rightarrow> state_v1 \<Rightarrow> js_string option \<Rightarrow> unit \<Rightarrow> (auth_result + unit) \<times> state_v1" where
  "sse_route_v1 API_KEY = with_authenticate API_KEY sse_handler_v1"

definition message_route_v1 ::
  "js_string \<Rightarrow> state_v1 \<Rightarrow> js_string option \<Rightarrow> request \<Rightarrow> (auth_result + post_response) \<times> state_v1" where
  "message_route_v1 API_KEY = with_authenticate API_KEY message_handler_v1"

section \<open>Tool dispatch\<close>

text \<open>
  What the handler uses of the JavaScript runtime. \<open>js_eval s\<close> is the value of
  \<^verbatim>\<open>eval(s)\<close> as the template literal \<^verbatim>\<open>`${result}`\<close> renders it, or what
  \<^verbatim>\<open>eval\<close> throws. \<open>toLocaleString None\<close> is
  \<^verbatim>\<open>new Date().toLocaleString()\<close> and \<open>toLocaleString (Some tz)\<close> is
  \<^verbatim>\<open>new Date().toLocaleString("en-US", { timeZone: tz })\<close>, which throws on a time
  zone it does not know. \<open>js_String v\<close> is the rendering of a value that is not a
  string in a template literal.
\<close>

record js_runtime =
  js_eval :: "js_string \<Rightarrow> js_exn + js_string"
  toLocaleString :: "js_value option \<Rightarrow> js_exn + js_string"
  js_String :: "js_value \<Rightarrow> js_exn + js_string"
  toUpperCase :: "js_string \<Rightarrow> js_string"

fun template :: "js_runtime \<Rightarrow> js_value \<Rightarrow> js_exn + js_string" where
  "template rt (JString s) = Inr s"
| "template rt v = js_String rt v"

text \<open>
  The result of a tool call: the text of its one content item and \<^verbatim>\<open>isError\<close>
  (\<open>False\<close> where the source leaves the property out).
\<close>

record tool_result =
  content_text :: js_value
  isError :: bool

text \<open>\<^verbatim>\<open>args?.name\<close>: \<open>None\<close> is an \<^verbatim>\<open>arguments\<close> object that is absent.\<close>

definition get_arg :: "(js_string \<times> js_value) list option \<Rightarrow> string \<Rightarrow> js_value" where
  "get_arg args p =
     (case args of
        None \<Rightarrow> JUndefined
      | Some props \<Rightarrow> (case js_map_get props (lit p) of None \<Rightarrow> JUndefined | Some v \<Rightarrow> v))"

text \<open>
  \<^verbatim>\<open>\s\<close> in a regular expression: the white space and line terminator code units of
  ECMAScript.
\<close>

definition is_space :: "nat \<Rightarrow> bool" where
  "is_space c \<longleftrightarrow>
     c \<in> {9, 10, 11, 12, 13, 32, 160, 5760, 8232, 8233, 8239, 8287, 12288, 65279}
     \<or> (8192 \<le> c \<and> c \<le> 8202)"

text \<open>A code unit that \<^verbatim>\<open>[0-9+\-*/().\s]\<close> matches.\<close>

definition allowed_char :: "nat \<Rightarrow> bool" where
  "allowed_char c \<longleftrightarrow>
     (of_char CHR ''0'' \<le> c \<and> c \<le> of_char CHR ''9'')
     \<or> c \<in> set (lit ''+-*/().'')
     \<or> is_space c"

text \<open>The code units that \<^verbatim>\<open>replace(/[^0-9+\-*/().\s]/g, "")\<close> removes.\<close>

definition disallowed_chars :: "js_string \<Rightarrow> js_string" where
  "disallowed_chars s = filter (Not \<circ> allowed_char) s"

text \<open>
  The calculate case up to the call of \<^verbatim>\<open>eval\<close>: it throws, or it reaches
  \<^verbatim>\<open>eval(sanitized)\<close> with the string given here. A value without a
  \<^verbatim>\<open>replace\<close> method makes the call of it a \<^verbatim>\<open>TypeError\<close>.
\<close>

datatype calc_step = Reject js_exn | Eval js_string

definition calculate_guard :: "js_value \<Rightarrow> calc_step" where
  "calculate_guard expression =
     (if \<not> truthy expression then Reject (JsError (lit ''Expression is required''))
      else case expression of
             JString s \<Rightarrow>
               (let sanitized = filter allowed_char s
                in if sanitized \<noteq> s
                   then Reject (JsError (lit ''Invalid characters in expression''))
                   else Eval sanitized)
           | _ \<Rightarrow> Reject (JsError (lit ''expression.replace is not a function'')))"

definition calculate_tool ::
  "js_runtime \<Rightarrow> (js_string \<times> js_value) list option \<Rightarrow> js_exn + tool_result" where
  "calculate_tool rt args =
     (let expression = get_arg args ''expression''
      in case calculate_guard expression of
           Reject e \<Rightarrow> Inl e
         | Eval sanitized \<Rightarrow>
             (case js_eval rt sanitized of
                Inl e \<Rightarrow> Inl e
              | Inr result \<Rightarrow>
                  (case template rt expression of
                     Inl e \<Rightarrow> Inl e
                   | Inr shown \<Rightarrow>
                       Inr \<lparr>content_text = JString (shown @ lit '' = '' @ result),
                            isError = False\<rparr>)))"

definition echo_tool ::
  "js_runtime \<Rightarrow> (js_string \<times> js_value) list option \<Rightarrow> js_exn + tool_result" where
  "echo_tool rt args =
     (let message = get_arg args ''message'';
          uppercase = get_arg args ''uppercase''
      in if \<not> truthy message then Inl (JsError (lit ''Message is required''))
         else if truthy uppercase then
           (case message of
              JString s \<Rightarrow> Inr \<lparr>content_text = JString (toUpperCase rt s), isError = False\<rparr>
            | _ \<Rightarrow> Inl (JsError (lit ''message.toUpperCase is not a function'')))
         else Inr \<lparr>content_text = message, isError = False\<rparr>)"

definition get_current_time_tool ::
  "js_runtime \<Rightarrow> (js_string \<times> js_value) list option \<Rightarrow> js_exn + tool_result" where
  "get_current_time_tool rt args =
     (let timezone = get_arg args ''timezone''
      in if truthy timezone then
           (case toLocaleString rt (Some timezone) of
              Inl e \<Rightarrow> Inl e
            | Inr timeString \<Rightarrow>
                (case template rt timezone of
                   Inl e \<Rightarrow> Inl e
                 | Inr tz \<Rightarrow>
                     Inr \<lparr>content_text =
                            JString (lit ''Current time'' @ lit '' in '' @ tz @ lit '': '' @ timeString),
                          isError = False\<rparr>))
         else
           (case toLocaleString rt None of
              Inl e \<Rightarrow> Inl e
            | Inr timeString \<Rightarrow>
                Inr \<lparr>content_text = JString (lit ''Current time'' @ lit '': '' @ timeString),
                     isError = False\<rparr>))"

text \<open>
  The \<^verbatim>\<open>try\<close> block of the \<^verbatim>\<open>CallToolRequestSchema\<close> handler. The
  protocol library calls the handler with a request that matches the schema:
  \<^verbatim>\<open>params.name\<close> is a string and \<^verbatim>\<open>params.arguments\<close> is an object or absent.
\<close>

definition handler_body ::
  "js_runtime \<Rightarrow> js_string \<Rightarrow> (js_string \<times> js_value) list option \<Rightarrow> js_exn + tool_result" where
  "handler_body rt name args =
     (if name = lit ''get_current_time'' then get_current_time_tool rt args
      else if name = lit ''calculate'' then calculate_tool rt args
      else if name = lit ''echo'' then echo_tool rt args
      else Inl (JsError (lit ''Unknown tool: '' @ name)))"

text \<open>\<^verbatim>\<open>error instanceof Error ? error.message : String(error)\<close>.\<close>

fun errorMessage :: "js_exn \<Rightarrow> js_string" where
  "errorMessage (JsError m) = m"
| "errorMessage (JsThrown s) = s"

text \<open>The handler: the \<^verbatim>\<open>try\<close> block and its \<^verbatim>\<open>catch\<close>.\<close>

definition call_tool ::
  "js_runtime \<Rightarrow> js_string \<Rightarrow> (js_string \<times> js_value) list option \<Rightarrow> tool_result" where
  "call_tool rt name args =
     (case handler_body rt name args of
        Inr r \<Rightarrow> r
      | Inl e \<Rightarrow> \<lparr>content_text = JString (lit ''Error: '' @ errorMessage e), isError = True\<rparr>)"

section \<open>Example inputs\<close>

text \<open>
  A runtime for the examples: \<^verbatim>\<open>eval\<close> knows one expression and reports a syntax
  error on any other, no named time zone is known, and upper-casing changes nothing.
\<close>

definition rt0 :: js_runtime where
  "rt0 = \<lparr>js_eval = (\<lambda>s. if s = lit ''2 + 2'' then Inr (lit ''4'')
                         else Inl (JsError (lit ''Unexpected end of input''))),
           toLocaleString = (\<lambda>tz. case tz of
                                None \<Rightarrow> Inr (lit ''1/1/2026, 12:00:00 AM'')
                              | Some z \<Rightarrow> Inl (JsError (lit ''Invalid time zone specified''))),
           js_String = (\<lambda>v. Inr (lit ''[object Object]'')),
           toUpperCase = (\<lambda>s. s)\<rparr>"

text \<open>Reading a decimal numeral back, the inverse of \<open>number_toString\<close>.\<close>

definition parse_decimal :: "js_string \<Rightarrow> nat" where
  "parse_decimal s = foldl (\<lambda>a c. 10 * a + (c - 48)) 0 s"

text \<open>
  The closures the event loop holds, and what holds of them while no two connections share
  an identifier: they belong to different identifiers, and the entry of each one's
  identifier holds its transport.
\<close>

definition closures :: "server_state \<Rightarrow> (js_string \<times> ref) list" where
  "closures st = pending_connects st @ close_listeners st"

definition closures_registered :: "server_state \<Rightarrow> bool" where
  "closures_registered st \<longleftrightarrow>
     distinct (map fst (closures st))
     \<and> (\<forall>c \<in> set (closures st).
          \<exists>e. js_map_get (transports st) (fst c) = Some e \<and> transport e = snd c)"

text \<open>A transport class whose \<^verbatim>\<open>handlePostMessage\<close> accepts every message.\<close>

definition lib0 :: sdk where
  "lib0 = \<lparr>has_handlePostMessage = True, handlePostMessage = (\<lambda>t req. HpmReturned 202)\<rparr>"

text \<open>A transport class whose \<^verbatim>\<open>handlePostMessage\<close> answers 400 to every message.\<close>

definition lib_rejecting :: sdk where
  "lib_rejecting =
     \<lparr>has_handlePostMessage = True, handlePostMessage = (\<lambda>t req. HpmReturned 400)\<rparr>"

text \<open>Two connections opened one second apart.\<close>

definition two_sessions :: "event list" where
  "two_sessions =
     [SseOpen 1000 (lit ''a1''), ConnectResolved (sessionId_v3 1000 (lit ''a1'')) 0,
      SseOpen 2000 (lit ''b2''), ConnectResolved (sessionId_v3 2000 (lit ''b2'')) 2]"

text \<open>
  Two connections opened in the same millisecond with the same random suffix, and the
  first of them closed.
\<close>

definition colliding_sessions :: "event list" where
  "colliding_sessions =
     [SseOpen 1000 (lit ''a1''), ConnectResolved (sessionId_v3 1000 (lit ''a1'')) 0,
      SseOpen 1000 (lit ''a1''), ConnectResolved (sessionId_v3 1000 (lit ''a1'')) 2,
      Close (sessionId_v3 1000 (lit ''a1'')) 0]"

text \<open>One connection, opened and closed.\<close>

definition closed_session :: "event list" where
  "closed_session =
     [SseOpen 1000 (lit ''a1''), ConnectResolved (sessionId_v3 1000 (lit ''a1'')) 0,
      Close (sessionId_v3 1000 (lit ''a1'')) 0]"

text \<open>Two connections of mcp-server/src/index.ts opened in the same millisecond.\<close>

definition same_millisecond :: "event_v2 list" where
  "same_millisecond =
     [SseOpen2 1700000000000, ConnectResolved2 (sessionId_v2 1700000000000),
      SseOpen2 1700000000000, ConnectResolved2 (sessionId_v2 1700000000000)]"

section \<open>String literals\<close>

lemma lit_eq_iff [simp]: "lit a = lit b \<longleftrightarrow> a = b"
proof
  assume "lit a = lit b"
  then have "map (char_of :: nat \<Rightarrow> char) (lit a) = map char_of (lit b)"
    by simp
  then show "a = b"
    by (simp add: lit_def)
qed simp

lemma lit_Nil [simp]: "lit [] = []"
  by (simp add: lit_def)

lemma lit_eq_Nil_iff [simp]: "lit a = [] \<longleftrightarrow> a = []"
  by (simp add: lit_def)

lemma lit_append: "lit a @ lit b = lit (a @ b)"
  by (simp add: lit_def)

section \<open>Registry contract\<close>

lemma js_map_get_set_same: "js_map_get (js_map_set k v m) k = Some v"
  by (induction m) auto

lemma js_map_get_set_other: "k' \<noteq> k \<Longrightarrow> js_map_get (js_map_set k v m) k' = js_map_get m k'"
  by (induction m) auto

lemma js_map_get_delete_same: "js_map_get (js_map_delete k m) k = None"
  by (induction m) auto

lemma js_map_get_delete_other: "k' \<noteq> k \<Longrightarrow> js_map_get (js_map_delete k m) k' = js_map_get m k'"
  by (induction m) auto

lemma js_map_delete_absent: "js_map_get m k = None \<Longrightarrow> js_map_delete k m = m"
  by (induction m) (auto split: if_splits)

lemma js_map_delete_idem: "js_map_delete k (js_map_delete k m) = js_map_delete k m"
  by (simp add: js_map_delete_absent js_map_get_delete_same)

lemma js_map_get_None_iff: "js_map_get m k = None \<longleftrightarrow> k \<notin> set (js_map_keys m)"
  by (induction m) (auto simp: js_map_keys_def)

lemma js_map_keys_set: "set (js_map_keys (js_map_set k v m)) = insert k (set (js_map_keys m))"
  by (induction m) (auto simp: js_map_keys_def)

lemma js_map_keys_delete: "set (js_map_keys (js_map_delete k m)) = set (js_map_keys m) - {k}"
  by (induction m) (auto simp: js_map_keys_def)

lemma js_map_set_distinct:
  "distinct (js_map_keys m) \<Longrightarrow> distinct (js_map_keys (js_map_set k v m))"
proof (induction m)
  case Nil
  then show ?case by (simp add: js_map_keys_def)
next
  case (Cons e es)
  have "fst e \<notin> set (js_map_keys es)" and "distinct (js_map_keys es)"
    using Cons.prems by (simp_all add: js_map_keys_def)
  then show ?case
    using Cons.IH js_map_keys_set [of k v es] by (auto simp: js_map_keys_def)
qed

lemma js_map_delete_distinct:
  "distinct (js_map_keys m) \<Longrightarrow> distinct (js_map_keys (js_map_delete k m))"
proof (induction m)
  case Nil
  then show ?case by (simp add: js_map_keys_def)
next
  case (Cons e es)
  have "fst e \<notin> set (js_map_keys es)" and "distinct (js_map_keys es)"
    using Cons.prems by (simp_all add: js_map_keys_def)
  then show ?case
    using Cons.IH js_map_keys_delete [of k es] by (auto simp: js_map_keys_def)
qed

section \<open>The calculate tool\<close>

lemma disallowed_chars_Nil_iff: "disallowed_chars s = [] \<longleftrightarrow> (\<forall>c\<in>set s. allowed_char c)"
  by (simp add: disallowed_chars_def filter_empty_conv)

lemma calculate_guard_string:
  "calculate_guard (JString s) =
     (if s = [] then Reject (JsError (lit ''Expression is required''))
      else if disallowed_chars s \<noteq> [] then Reject (JsError (lit ''Invalid characters in expression''))
      else Eval s)"
  by (auto simp: calculate_guard_def disallowed_chars_Nil_iff filter_id_conv Let_def)

lemma disallowed_chars_examples:
  "disallowed_chars (lit ''2 + 2'') = []"
  "disallowed_chars (lit ''DROP TABLE'') = lit ''DROPTABLE''"
  "disallowed_chars (lit ''2x'') = lit ''x''"
  by (simp_all add: disallowed_chars_def allowed_char_def is_space_def lit_def)

lemma calculate_tool_string:
  "calculate_tool rt (Some [(lit ''expression'', JString s)]) =
     (case calculate_guard (JString s) of
        Reject e \<Rightarrow> Inl e
      | Eval sanitized \<Rightarrow>
          (case js_eval rt sanitized of
             Inl e \<Rightarrow> Inl e
           | Inr result \<Rightarrow>
               Inr \<lparr>content_text = JString (s @ lit '' = '' @ result), isError = False\<rparr>))"
  by (simp add: calculate_tool_def get_arg_def split: calc_step.splits sum.splits)

text \<open>
  C5, amended. A string given to calculate is rejected before \<^verbatim>\<open>eval\<close> is reached
  if and only if it is empty or contains a code unit outside
  \<^verbatim>\<open>[0-9+\-*/().\s]\<close>. A non-empty string with such a code unit is rejected with
  "Invalid characters in expression"; a non-empty string without one reaches
  \<^verbatim>\<open>eval\<close> unchanged, nothing stripped. "DROP TABLE" is rejected and never
  evaluated, whatever the runtime.
\<close>

theorem calculate_rejection:
  "((\<exists>e. calculate_guard (JString s) = Reject e) \<longleftrightarrow> s = [] \<or> disallowed_chars s \<noteq> [])
   \<and> (disallowed_chars s \<noteq> [] \<longleftrightarrow> (\<exists>c\<in>set s. \<not> allowed_char c))
   \<and> (s \<noteq> [] \<and> disallowed_chars s \<noteq> [] \<longrightarrow>
        calculate_guard (JString s) = Reject (JsError (lit ''Invalid characters in expression''))
        \<and> calculate_tool rt (Some [(lit ''expression'', JString s)])
            = Inl (JsError (lit ''Invalid characters in expression'')))
   \<and> (s \<noteq> [] \<and> disallowed_chars s = [] \<longrightarrow>
        calculate_guard (JString s) = Eval s)
   \<and> calculate_guard (JString (lit ''DROP TABLE''))
        = Reject (JsError (lit ''Invalid characters in expression''))
   \<and> call_tool rt (lit ''calculate'') (Some [(lit ''expression'', JString (lit ''DROP TABLE''))])
        = \<lparr>content_text = JString (lit ''Error: Invalid characters in expression''), isError = True\<rparr>"
proof -
  have drop: "calculate_guard (JString (lit ''DROP TABLE''))
        = Reject (JsError (lit ''Invalid characters in expression''))"
    by (simp add: calculate_guard_string disallowed_chars_examples)
  have call: "call_tool rt (lit ''calculate'') (Some [(lit ''expression'', JString (lit ''DROP TABLE''))])
        = \<lparr>content_text = JString (lit ''Error: Invalid characters in expression''), isError = True\<rparr>"
    unfolding call_tool_def handler_body_def calculate_tool_string drop
    by (simp add: lit_append)
  have a: "(\<exists>e. calculate_guard (JString s) = Reject e) \<longleftrightarrow> s = [] \<or> disallowed_chars s \<noteq> []"
    by (simp add: calculate_guard_string)
  have b: "disallowed_chars s \<noteq> [] \<longleftrightarrow> (\<exists>c\<in>set s. \<not> allowed_char c)"
    by (simp add: disallowed_chars_Nil_iff)
  have c: "s \<noteq> [] \<and> disallowed_chars s \<noteq> [] \<longrightarrow>
        calculate_guard (JString s) = Reject (JsError (lit ''Invalid characters in expression''))
        \<and> calculate_tool rt (Some [(lit ''expression'', JString s)])
            = Inl (JsError (lit ''Invalid characters in expression''))"
    by (simp add: calculate_tool_string calculate_guard_string)
  have d: "s \<noteq> [] \<and> disallowed_chars s = [] \<longrightarrow> calculate_guard (JString s) = Eval s"
    by (simp add: calculate_guard_string)
  show ?thesis using a b c d drop call by blast
qed

theorem calculate_rejection_witness:
  "lit ''2x'' \<noteq> [] \<and> disallowed_chars (lit ''2x'') \<noteq> []
   \<and> calculate_guard (JString (lit ''2x'')) = Reject (JsError (lit ''Invalid characters in expression''))
   \<and> lit ''2 + 2'' \<noteq> [] \<and> disallowed_chars (lit ''2 + 2'') = []
   \<and> calculate_guard (JString (lit ''2 + 2'')) = Eval (lit ''2 + 2'')"
  using calculate_rejection [of "lit ''2x''" rt0] calculate_rejection [of "lit ''2 + 2''" rt0]
  by (simp add: disallowed_chars_examples)

text \<open>
  C5 as it is stated fails at the empty string: it has no code unit outside the set and
  is rejected all the same, by the presence check.
\<close>

theorem calculate_rejects_empty_counterexample:
  "calculate_guard (JString (lit [])) = Reject (JsError (lit ''Expression is required''))
   \<and> disallowed_chars (lit []) = []"
  by (simp add: calculate_guard_def disallowed_chars_def)

text \<open>
  What the calculate case adds to \<^verbatim>\<open>eval\<close>: an expression that passes the guard is
  given to \<^verbatim>\<open>eval\<close> as it is, and the answer is the expression, " = " and the
  rendering of the value.
\<close>

lemma calculate_tool_passes_to_eval:
  "s \<noteq> [] \<Longrightarrow> disallowed_chars s = [] \<Longrightarrow> js_eval rt s = Inr result \<Longrightarrow>
   call_tool rt (lit ''calculate'') (Some [(lit ''expression'', JString s)])
     = \<lparr>content_text = JString (s @ lit '' = '' @ result), isError = False\<rparr>"
  by (simp add: call_tool_def handler_body_def calculate_tool_string calculate_guard_string)

section \<open>Presence checks\<close>

text \<open>
  C10. The empty string is rejected by the presence check of each tool: calculate with the
  expression "" answers the tool error "Expression is required", though the empty string
  has no disallowed code unit, and echo with the message "" answers the tool error
  "Message is required", with or without \<^verbatim>\<open>uppercase\<close>, and echoes nothing.
\<close>

theorem empty_string_is_required:
  "call_tool rt (lit ''calculate'') (Some [(lit ''expression'', JString (lit []))])
     = \<lparr>content_text = JString (lit ''Error: Expression is required''), isError = True\<rparr>
   \<and> disallowed_chars (lit []) = []
   \<and> call_tool rt (lit ''echo'') (Some [(lit ''message'', JString (lit []))])
     = \<lparr>content_text = JString (lit ''Error: Message is required''), isError = True\<rparr>
   \<and> call_tool rt (lit ''echo'') (Some [(lit ''message'', JString (lit [])), (lit ''uppercase'', u)])
     = \<lparr>content_text = JString (lit ''Error: Message is required''), isError = True\<rparr>"
  by (simp add: call_tool_def handler_body_def calculate_tool_def echo_tool_def get_arg_def
      calculate_guard_def disallowed_chars_def lit_append)

theorem empty_string_is_required_witness:
  "call_tool rt0 (lit ''calculate'') (Some [(lit ''expression'', JString (lit []))])
     = \<lparr>content_text = JString (lit ''Error: Expression is required''), isError = True\<rparr>
   \<and> call_tool rt0 (lit ''echo'') (Some [(lit ''message'', JString (lit [])), (lit ''uppercase'', JBool True)])
     = \<lparr>content_text = JString (lit ''Error: Message is required''), isError = True\<rparr>"
  using empty_string_is_required [of rt0 "JBool True"]
  by simp

section \<open>The catch of the tool handler\<close>

text \<open>
  C7. Whatever the tool name and the arguments, the handler returns a result. When the
  \<^verbatim>\<open>try\<close> block throws, the result is the tool error with \<^verbatim>\<open>isError\<close> set and
  the text "Error: " followed by the message; when it returns, the result is what it
  returned. So a result without \<^verbatim>\<open>isError\<close> is one the block returned. This
  covers an unknown tool name, a rejection by the guard of calculate, an exception of
  \<^verbatim>\<open>eval\<close>, an exception of \<^verbatim>\<open>toLocaleString\<close> on a time zone, and a
  missing message of echo.
\<close>

theorem call_tool_catches:
  "(handler_body rt name args = Inl e \<longrightarrow>
      call_tool rt name args = \<lparr>content_text = JString (lit ''Error: '' @ errorMessage e), isError = True\<rparr>)
   \<and> (handler_body rt name args = Inr r \<longrightarrow> call_tool rt name args = r)
   \<and> (isError (call_tool rt name args) \<or> handler_body rt name args = Inr (call_tool rt name args))
   \<and> (name \<noteq> lit ''get_current_time'' \<and> name \<noteq> lit ''calculate'' \<and> name \<noteq> lit ''echo'' \<longrightarrow>
        call_tool rt name args
          = \<lparr>content_text = JString (lit ''Error: Unknown tool: '' @ name), isError = True\<rparr>)
   \<and> (calculate_guard (get_arg args ''expression'') = Eval s \<and> js_eval rt s = Inl e \<longrightarrow>
        call_tool rt (lit ''calculate'') args
          = \<lparr>content_text = JString (lit ''Error: '' @ errorMessage e), isError = True\<rparr>)
   \<and> (calculate_guard (get_arg args ''expression'') = Reject e \<longrightarrow>
        call_tool rt (lit ''calculate'') args
          = \<lparr>content_text = JString (lit ''Error: '' @ errorMessage e), isError = True\<rparr>)
   \<and> (truthy (get_arg args ''timezone'') \<and> toLocaleString rt (Some (get_arg args ''timezone'')) = Inl e \<longrightarrow>
        call_tool rt (lit ''get_current_time'') args
          = \<lparr>content_text = JString (lit ''Error: '' @ errorMessage e), isError = True\<rparr>)
   \<and> (\<not> truthy (get_arg args ''message'') \<longrightarrow>
        call_tool rt (lit ''echo'') args
          = \<lparr>content_text = JString (lit ''Error: Message is required''), isError = True\<rparr>)"
proof -
  have a: "handler_body rt name args = Inl e \<longrightarrow>
      call_tool rt name args = \<lparr>content_text = JString (lit ''Error: '' @ errorMessage e), isError = True\<rparr>"
    by (simp add: call_tool_def)
  have b: "handler_body rt name args = Inr r \<longrightarrow> call_tool rt name args = r"
    by (simp add: call_tool_def)
  have c: "isError (call_tool rt name args) \<or> handler_body rt name args = Inr (call_tool rt name args)"
    by (simp add: call_tool_def split: sum.splits)
  have d: "name \<noteq> lit ''get_current_time'' \<and> name \<noteq> lit ''calculate'' \<and> name \<noteq> lit ''echo'' \<longrightarrow>
        call_tool rt name args
          = \<lparr>content_text = JString (lit ''Error: Unknown tool: '' @ name), isError = True\<rparr>"
    by (simp add: call_tool_def handler_body_def lit_def)
  have e: "calculate_guard (get_arg args ''expression'') = Eval s \<and> js_eval rt s = Inl e \<longrightarrow>
        call_tool rt (lit ''calculate'') args
          = \<lparr>content_text = JString (lit ''Error: '' @ errorMessage e), isError = True\<rparr>"
    by (simp add: call_tool_def handler_body_def calculate_tool_def)
  have f: "calculate_guard (get_arg args ''expression'') = Reject e \<longrightarrow>
        call_tool rt (lit ''calculate'') args
          = \<lparr>content_text = JString (lit ''Error: '' @ errorMessage e), isError = True\<rparr>"
    by (simp add: call_tool_def handler_body_def calculate_tool_def)
  have g: "truthy (get_arg args ''timezone'') \<and> toLocaleString rt (Some (get_arg args ''timezone'')) = Inl e \<longrightarrow>
        call_tool rt (lit ''get_current_time'') args
          = \<lparr>content_text = JString (lit ''Error: '' @ errorMessage e), isError = True\<rparr>"
    by (simp add: call_tool_def handler_body_def get_current_time_tool_def)
  have h: "\<not> truthy (get_arg args ''message'') \<longrightarrow>
        call_tool rt (lit ''echo'') args
          = \<lparr>content_text = JString (lit ''Error: Message is required''), isError = True\<rparr>"
    by (simp add: call_tool_def handler_body_def echo_tool_def lit_append)
  show ?thesis using a b c d e f g h by blast
qed

theorem call_tool_catches_witness:
  "handler_body rt0 (lit ''calculate'') (Some [(lit ''expression'', JString (lit ''2+''))])
     = Inl (JsError (lit ''Unexpected end of input''))
   \<and> call_tool rt0 (lit ''calculate'') (Some [(lit ''expression'', JString (lit ''2+''))])
     = \<lparr>content_text = JString (lit ''Error: Unexpected end of input''), isError = True\<rparr>
   \<and> handler_body rt0 (lit ''get_current_time'') None
     = Inr \<lparr>content_text = JString (lit ''Current time: 1/1/2026, 12:00:00 AM''), isError = False\<rparr>
   \<and> call_tool rt0 (lit ''get_current_time'') None
     = \<lparr>content_text = JString (lit ''Current time: 1/1/2026, 12:00:00 AM''), isError = False\<rparr>
   \<and> call_tool rt0 (lit ''rm'') None
     = \<lparr>content_text = JString (lit ''Error: Unknown tool: rm''), isError = True\<rparr>
   \<and> call_tool rt0 (lit ''get_current_time'') (Some [(lit ''timezone'', JString (lit ''Mars/Olympus''))])
     = \<lparr>content_text = JString (lit ''Error: Invalid time zone specified''), isError = True\<rparr>
   \<and> call_tool rt0 (lit ''calculate'') (Some [(lit ''expression'', JNumber 5)])
     = \<lparr>content_text = JString (lit ''Error: expression.replace is not a function''), isError = True\<rparr>"
proof -
  have body1: "handler_body rt0 (lit ''calculate'') (Some [(lit ''expression'', JString (lit ''2+''))])
     = Inl (JsError (lit ''Unexpected end of input''))"
    by (simp add: handler_body_def calculate_tool_def get_arg_def calculate_guard_def
        allowed_char_def is_space_def rt0_def lit_def)
  have body2: "handler_body rt0 (lit ''get_current_time'') None
     = Inr \<lparr>content_text = JString (lit ''Current time: 1/1/2026, 12:00:00 AM''), isError = False\<rparr>"
    by (simp add: handler_body_def get_current_time_tool_def get_arg_def rt0_def lit_append)
  have guard5: "calculate_guard (get_arg (Some [(lit ''expression'', JNumber 5)]) ''expression'')
     = Reject (JsError (lit ''expression.replace is not a function''))"
    by (simp add: get_arg_def calculate_guard_def)
  have tz: "truthy (get_arg (Some [(lit ''timezone'', JString (lit ''Mars/Olympus''))]) ''timezone'')
     \<and> toLocaleString rt0 (Some (get_arg (Some [(lit ''timezone'', JString (lit ''Mars/Olympus''))]) ''timezone''))
        = Inl (JsError (lit ''Invalid time zone specified''))"
    by (simp add: get_arg_def rt0_def)
  show ?thesis
    using body1 body2 guard5 tz
      call_tool_catches [of rt0 "lit ''calculate''" "Some [(lit ''expression'', JString (lit ''2+''))]"
        "JsError (lit ''Unexpected end of input'')"]
      call_tool_catches [of rt0 "lit ''get_current_time''" None _
        "\<lparr>content_text = JString (lit ''Current time: 1/1/2026, 12:00:00 AM''), isError = False\<rparr>"]
      call_tool_catches [of rt0 "lit ''rm''" None]
      call_tool_catches [of rt0 _ "Some [(lit ''timezone'', JString (lit ''Mars/Olympus''))]"
        "JsError (lit ''Invalid time zone specified'')"]
      call_tool_catches [of rt0 _ "Some [(lit ''expression'', JNumber 5)]"
        "JsError (lit ''expression.replace is not a function'')"]
    by (simp add: lit_append)
qed

section \<open>Authentication\<close>

lemma authenticate_missing:
  "authenticate key None = Respond 401 (lit ''Missing or invalid authorization header'')"
  by (simp add: authenticate_def)

lemma startsWith_Bearer: "take 7 h = lit ''Bearer '' \<longleftrightarrow> (\<exists>tok. h = lit ''Bearer '' @ tok)"
proof
  assume "take 7 h = lit ''Bearer ''"
  then have "h = lit ''Bearer '' @ drop 7 h"
    by (metis append_take_drop_id)
  then show "\<exists>tok. h = lit ''Bearer '' @ tok" ..
next
  assume "\<exists>tok. h = lit ''Bearer '' @ tok"
  then show "take 7 h = lit ''Bearer ''"
    by (auto simp: lit_def)
qed

lemma authenticate_malformed:
  "\<not> (\<exists>tok. h = lit ''Bearer '' @ tok) \<Longrightarrow>
   authenticate key (Some h) = Respond 401 (lit ''Missing or invalid authorization header'')"
  by (simp add: authenticate_def startsWith_Bearer)

lemma authenticate_bearer:
  "authenticate key (Some (lit ''Bearer '' @ tok)) =
     (if tok \<noteq> key then Respond 403 (lit ''Invalid API key'') else Next)"
  by (simp add: authenticate_def lit_def)

text \<open>
  C8. A request without an Authorization header, or with one that does not start with
  "Bearer ", is answered 401; a header "Bearer " followed by a token that differs from
  the configured key is answered 403; the header "Bearer " followed by the key, and no
  other, passes to the handler. When the middleware answers, the handler of the route
  does not run and the state is what it was, for any handler and for the two routes of
  src/index.ts; when it passes, the result and the state are the handler's.
\<close>

theorem authenticate_statuses:
  "authenticate key None = Respond 401 (lit ''Missing or invalid authorization header'')
   \<and> (\<not> (\<exists>tok. h = lit ''Bearer '' @ tok) \<longrightarrow>
        authenticate key (Some h) = Respond 401 (lit ''Missing or invalid authorization header''))
   \<and> (tok \<noteq> key \<longrightarrow>
        authenticate key (Some (lit ''Bearer '' @ tok)) = Respond 403 (lit ''Invalid API key''))
   \<and> authenticate key (Some (lit ''Bearer '' @ key)) = Next
   \<and> (authenticate key a = Next \<longleftrightarrow> a = Some (lit ''Bearer '' @ key))
   \<and> (authenticate key a \<noteq> Next \<longrightarrow>
        with_authenticate key handler st a req = (Inl (authenticate key a), st)
        \<and> snd (sse_route_v1 key st1 a ()) = st1
        \<and> snd (message_route_v1 key st1 a req1) = st1)
   \<and> (authenticate key a = Next \<longrightarrow>
        with_authenticate key handler st a req
          = (Inr (fst (handler st req)), snd (handler st req)))"
proof -
  have next_iff: "authenticate key a = Next \<longleftrightarrow> a = Some (lit ''Bearer '' @ key)"
  proof (cases a)
    case None
    then show ?thesis by (simp add: authenticate_missing)
  next
    case (Some h)
    show ?thesis
    proof (cases "\<exists>tok. h = lit ''Bearer '' @ tok")
      case True
      then obtain tok where "h = lit ''Bearer '' @ tok" ..
      then show ?thesis using Some by (auto simp: authenticate_bearer)
    next
      case False
      then show ?thesis using Some by (auto simp: authenticate_malformed)
    qed
  qed
  have rej: "authenticate key a \<noteq> Next \<Longrightarrow>
      with_authenticate key h' s a q = (Inl (authenticate key a), s)"
    for h' :: "'x \<Rightarrow> 'y \<Rightarrow> 'z \<times> 'x" and s q
    by (cases "authenticate key a") (simp_all add: with_authenticate_def)
  have pass: "authenticate key a = Next \<longrightarrow>
        with_authenticate key handler st a req
          = (Inr (fst (handler st req)), snd (handler st req))"
    by (simp add: with_authenticate_def split: prod.splits)
  show ?thesis
    using next_iff rej [of handler st req] rej [of sse_handler_v1 st1 "()"]
      rej [of message_handler_v1 st1 req1] pass
    by (simp add: authenticate_missing authenticate_malformed authenticate_bearer
        sse_route_v1_def message_route_v1_def)
qed

theorem authenticate_statuses_witness:
  "\<not> (\<exists>tok. lit ''Basic abc'' = lit ''Bearer '' @ tok)
   \<and> authenticate (lit ''k1'') (Some (lit ''Basic abc''))
       = Respond 401 (lit ''Missing or invalid authorization header'')
   \<and> lit ''k2'' \<noteq> lit ''k1''
   \<and> authenticate (lit ''k1'') (Some (lit ''Bearer '' @ lit ''k2'')) = Respond 403 (lit ''Invalid API key'')
   \<and> authenticate (lit ''k1'') (Some (lit ''Bearer k2'')) \<noteq> Next
   \<and> sse_route_v1 (lit ''k1'') \<lparr>server_transport = None, next_ref_v1 = 0\<rparr> (Some (lit ''Bearer k2'')) ()
       = (Inl (Respond 403 (lit ''Invalid API key'')), \<lparr>server_transport = None, next_ref_v1 = 0\<rparr>)
   \<and> authenticate (lit ''k1'') (Some (lit ''Bearer k1'')) = Next
   \<and> sse_route_v1 (lit ''k1'') \<lparr>server_transport = None, next_ref_v1 = 0\<rparr> (Some (lit ''Bearer k1'')) ()
       = (Inr (), \<lparr>server_transport = Some 0, next_ref_v1 = 1\<rparr>)"
proof -
  have nb: "\<not> (\<exists>tok. lit ''Basic abc'' = lit ''Bearer '' @ tok)"
    by (simp add: lit_def)
  have a403: "authenticate (lit ''k1'') (Some (lit ''Bearer k2'')) \<noteq> Next"
    by (simp add: authenticate_def lit_def)
  have anext: "authenticate (lit ''k1'') (Some (lit ''Bearer k1'')) = Next"
    by (simp add: authenticate_def lit_def)
  show ?thesis
    using nb a403 anext
      authenticate_statuses [of "lit ''k1''" "lit ''Basic abc''" "lit ''k2''" "Some (lit ''Bearer k2'')"
        sse_handler_v1 "\<lparr>server_transport = None, next_ref_v1 = 0\<rparr>" "()"
        "\<lparr>server_transport = None, next_ref_v1 = 0\<rparr>"]
      authenticate_statuses [of "lit ''k1''" "lit ''Basic abc''" "lit ''k2''" "Some (lit ''Bearer k1'')"
        sse_handler_v1 "\<lparr>server_transport = None, next_ref_v1 = 0\<rparr>" "()"
        "\<lparr>server_transport = None, next_ref_v1 = 0\<rparr>"]
    by (simp add: sse_route_v1_def sse_handler_v1_def lit_append)
qed

section \<open>Generated identifiers\<close>

lemma parse_decimal_toString: "parse_decimal (number_toString n) = n"
proof (induction n rule: number_toString.induct)
  case (1 n)
  show ?case
  proof (cases "n < 10")
    case True
    then show ?thesis
      by (subst number_toString.simps) (simp add: parse_decimal_def digit_char_def)
  next
    case False
    then have "parse_decimal (number_toString (n div 10)) = n div 10"
      using "1.IH" by simp
    then show ?thesis
      using False
      by (subst number_toString.simps) (simp add: parse_decimal_def digit_char_def)
  qed
qed

lemma number_toString_inj: "number_toString n = number_toString m \<longleftrightarrow> n = m"
  by (metis parse_decimal_toString)

lemma number_toString_digits: "c \<in> set (number_toString n) \<Longrightarrow> 48 \<le> c \<and> c \<le> 57"
proof (induction n rule: number_toString.induct)
  case (1 n)
  show ?case
  proof (cases "n < 10")
    case True
    then show ?thesis
      using "1.prems" by (subst (asm) number_toString.simps) (simp add: digit_char_def)
  next
    case False
    then have "c \<in> set (number_toString (n div 10)) \<or> c = digit_char (n mod 10)"
      using "1.prems" by (subst (asm) number_toString.simps) auto
    then show ?thesis
      using "1.IH" False by (auto simp: digit_char_def)
  qed
qed

lemma split_at_separator:
  "a \<notin> set xs \<Longrightarrow> a \<notin> set ys \<Longrightarrow> xs @ a # u = ys @ a # v \<Longrightarrow> xs = ys \<and> u = v"
proof (induction xs arbitrary: ys)
  case Nil
  then show ?case by (cases ys) auto
next
  case (Cons x xs)
  then show ?case by (cases ys) auto
qed

lemma sessionId_v2_inj: "sessionId_v2 n1 = sessionId_v2 n2 \<longleftrightarrow> n1 = n2"
  by (simp add: sessionId_v2_def number_toString_inj)

lemma sessionId_v3_inj: "sessionId_v3 n1 r1 = sessionId_v3 n2 r2 \<longleftrightarrow> n1 = n2 \<and> r1 = r2"
proof
  assume "sessionId_v3 n1 r1 = sessionId_v3 n2 r2"
  then have eq: "number_toString n1 @ 45 # r1 = number_toString n2 @ 45 # r2"
    by (simp add: sessionId_v3_def lit_def)
  have "45 \<notin> set (number_toString n1)" "45 \<notin> set (number_toString n2)"
    using number_toString_digits by fastforce+
  then have "number_toString n1 = number_toString n2 \<and> r1 = r2"
    using eq by (rule split_at_separator)
  then show "n1 = n2 \<and> r1 = r2"
    by (simp add: number_toString_inj)
qed simp

lemma number_toString_example: "number_toString 1700000000000 = lit ''1700000000000''"
  by (simp add: number_toString.simps digit_char_def lit_def)


section \<open>Reachable states\<close>

lemma set_js_map_delete: "set (js_map_delete k m) = {x \<in> set m. fst x \<noteq> k}"
  by (induction m) auto

lemma js_map_get_Some_mem: "js_map_get m k = Some v \<Longrightarrow> (k, v) \<in> set m"
  by (induction m) (auto split: if_splits)

lemma js_map_mem_get:
  "distinct (js_map_keys m) \<Longrightarrow> (k, v) \<in> set m \<Longrightarrow> js_map_get m k = Some v"
  by (induction m) (auto simp: js_map_keys_def rev_image_eqI)

lemma run_snoc: "run (evs @ [ev]) = apply_event (run evs) ev"
  by (simp add: run_def)

lemma generated_ids_snoc: "generated_ids (evs @ [ev]) = generated_ids evs @ generated_ids [ev]"
  by (induction evs rule: generated_ids.induct) auto

lemma sse_open_simps:
  "transports (sse_open now rnd st) =
     js_map_set (sessionId_v3 now rnd) \<lparr>transport = next_ref st, server = next_ref st + 1\<rparr> (transports st)"
  "currentTransport (sse_open now rnd st) = Some (next_ref st)"
  "next_ref (sse_open now rnd st) = next_ref st + 2"
  "pending_connects (sse_open now rnd st) = pending_connects st @ [(sessionId_v3 now rnd, next_ref st)]"
  "close_listeners (sse_open now rnd st) = close_listeners st"
  by (simp_all add: sse_open_def Let_def)

lemma on_close_simps:
  "transports (on_close sid t st) = js_map_delete sid (transports st)"
  "currentTransport (on_close sid t st) = (if currentTransport st = Some t then None else currentTransport st)"
  "next_ref (on_close sid t st) = next_ref st"
  "pending_connects (on_close sid t st) = pending_connects st"
  "close_listeners (on_close sid t st) = close_listeners st"
  by (simp_all add: on_close_def)

text \<open>Every state: the keys of the map are distinct.\<close>

lemma apply_event_distinct:
  "distinct (js_map_keys (transports st)) \<Longrightarrow> distinct (js_map_keys (transports (apply_event st ev)))"
  by (cases ev)
    (simp_all add: sse_open_simps on_close_simps sse_connected_def js_map_set_distinct
      js_map_delete_distinct)

lemma run_distinct: "distinct (js_map_keys (transports (run evs)))"
proof (induction evs rule: rev_induct)
  case Nil
  then show ?case by (simp add: run_def init_state_def js_map_keys_def)
next
  case (snoc ev evs)
  then show ?case by (simp only: run_snoc apply_event_distinct)
qed

lemma sse_open_v2_simps:
  "transports_v2 (sse_open_v2 now st) = js_map_set (sessionId_v2 now) (next_ref_v2 st) (transports_v2 st)"
  by (simp add: sse_open_v2_def Let_def)

lemma apply_event_v2_distinct:
  "distinct (js_map_keys (transports_v2 st)) \<Longrightarrow>
   distinct (js_map_keys (transports_v2 (apply_event_v2 st ev)))"
  by (cases ev)
    (simp_all add: sse_open_v2_simps on_close_v2_def sse_connected_v2_def js_map_set_distinct
      js_map_delete_distinct)

lemma run_v2_distinct: "distinct (js_map_keys (transports_v2 (run_v2 evs)))"
proof (induction evs rule: rev_induct)
  case Nil
  then show ?case by (simp add: run_v2_def init_state_v2_def js_map_keys_def)
next
  case (snoc ev evs)
  have "run_v2 (evs @ [ev]) = apply_event_v2 (run_v2 evs) ev"
    by (simp add: run_v2_def)
  then show ?case using snoc by (simp only: apply_event_v2_distinct)
qed

text \<open>What an event does to the closures held.\<close>

lemma set_closures_apply_event:
  "set (closures (apply_event st ev)) \<subseteq> set (closures st) \<union> set (pending_connects (apply_event st ev))"
  "set (pending_connects (apply_event st ev)) \<subseteq>
     set (pending_connects st) \<union> (case ev of SseOpen now rnd \<Rightarrow> {(sessionId_v3 now rnd, next_ref st)} | _ \<Rightarrow> {})"
proof -
  have sub: "set (remove1 x xs) \<subseteq> set xs" for x :: "js_string \<times> ref" and xs
    by (rule set_remove1_subset)
  show "set (closures (apply_event st ev)) \<subseteq> set (closures st) \<union> set (pending_connects (apply_event st ev))"
    using sub [of _ "close_listeners st"]
    by (cases ev) (auto simp: closures_def sse_open_simps on_close_simps sse_connected_def)
  show "set (pending_connects (apply_event st ev)) \<subseteq>
     set (pending_connects st) \<union> (case ev of SseOpen now rnd \<Rightarrow> {(sessionId_v3 now rnd, next_ref st)} | _ \<Rightarrow> {})"
    using sub [of _ "pending_connects st"]
    by (cases ev) (auto simp: sse_open_simps on_close_simps sse_connected_def)
qed

text \<open>The identifiers in the map and in the closures are generated ones.\<close>

lemma apply_event_ids:
  assumes "set (js_map_keys (transports st)) \<subseteq> G" "fst ` set (closures st) \<subseteq> G"
  shows "set (js_map_keys (transports (apply_event st ev))) \<subseteq> G \<union> set (generated_ids [ev])
       \<and> fst ` set (closures (apply_event st ev)) \<subseteq> G \<union> set (generated_ids [ev])"
proof -
  have keys: "set (js_map_keys (transports (apply_event st ev))) \<subseteq> G \<union> set (generated_ids [ev])"
    using assms(1)
    by (cases ev) (auto simp: sse_open_simps on_close_simps sse_connected_def js_map_keys_set js_map_keys_delete)
  have "set (pending_connects st) \<subseteq> set (closures st)"
    by (simp add: closures_def)
  then have "fst ` set (pending_connects (apply_event st ev)) \<subseteq> G \<union> set (generated_ids [ev])"
    using set_closures_apply_event(2) [of st ev] assms(2)
    by (cases ev) (auto; force)+
  then have "fst ` set (closures (apply_event st ev)) \<subseteq> G \<union> set (generated_ids [ev])"
    using set_closures_apply_event(1) [of st ev] assms(2) by blast
  then show ?thesis using keys by simp
qed

lemma run_ids:
  "set (js_map_keys (transports (run evs))) \<subseteq> set (generated_ids evs)
   \<and> fst ` set (closures (run evs)) \<subseteq> set (generated_ids evs)"
proof (induction evs rule: rev_induct)
  case Nil
  then show ?case by (simp add: run_def init_state_def js_map_keys_def closures_def)
next
  case (snoc ev evs)
  then show ?case
    using apply_event_ids [of "run evs" "set (generated_ids evs)" ev]
    by (simp add: run_snoc generated_ids_snoc)
qed

text \<open>Opening a connection under an identifier that is new.\<close>

lemma sse_open_invariant:
  assumes new: "sessionId_v3 now rnd \<notin> set (js_map_keys (transports st))"
      "sessionId_v3 now rnd \<notin> fst ` set (closures st)"
    and reg: "closures_registered st"
  shows "current_registered (sse_open now rnd st) \<and> closures_registered (sse_open now rnd st)"
proof -
  let ?sid = "sessionId_v3 now rnd"
  let ?e = "\<lparr>transport = next_ref st, server = next_ref st + 1\<rparr>"
  have "js_map_get (js_map_set ?sid ?e (transports st)) ?sid = Some ?e"
    by (rule js_map_get_set_same)
  then have mem: "(?sid, ?e) \<in> set (js_map_set ?sid ?e (transports st))"
    by (rule js_map_get_Some_mem)
  have cur: "current_registered (sse_open now rnd st)"
    using mem by (force simp: current_registered_def sse_open_simps)
  have old: "\<exists>e. js_map_get (js_map_set ?sid ?e (transports st)) sid = Some e \<and> transport e = t"
    if "(sid, t) \<in> set (closures st)" for sid t
  proof -
    have "sid \<noteq> ?sid" using that new(2) by force
    moreover have "\<exists>e. js_map_get (transports st) sid = Some e \<and> transport e = t"
      using that reg by (auto simp: closures_registered_def)
    ultimately show ?thesis by (simp add: js_map_get_set_other)
  qed
  have "distinct (map fst (closures st))"
    using reg by (simp add: closures_registered_def)
  then have "closures_registered (sse_open now rnd st)"
    using old new(2)
    by (auto simp: closures_registered_def closures_def sse_open_simps js_map_get_set_same)
  then show ?thesis using cur by simp
qed

lemma remove1_distinct_fst:
  "distinct (map fst xs) \<Longrightarrow> (k, v) \<in> set xs \<Longrightarrow>
   distinct (map fst (remove1 (k, v) xs)) \<and> k \<notin> fst ` set (remove1 (k, v) xs)"
proof (induction xs)
  case Nil
  then show ?case by simp
next
  case (Cons x xs)
  show ?case
  proof (cases "x = (k, v)")
    case True
    then show ?thesis using Cons.prems by auto
  next
    case False
    then have in_xs: "(k, v) \<in> set xs"
      using Cons.prems by auto
    then have "k \<in> fst ` set xs"
      by force
    then have "fst x \<noteq> k"
      using Cons.prems by auto
    note in_xs this
    moreover have "set (remove1 (k, v) xs) \<subseteq> set xs"
      by (rule set_remove1_subset)
    ultimately show ?thesis
      using Cons False by auto
  qed
qed

text \<open>A suspended handler resumes.\<close>

lemma connect_invariant:
  assumes reg: "closures_registered st"
    and mem: "(sid, t) \<in> set (pending_connects st)"
  shows "closures_registered (apply_event st (ConnectResolved sid t))
       \<and> closures_registered (apply_event st (ConnectRejected sid t))"
proof -
  let ?rest = "remove1 (sid, t) (pending_connects st)"
  have d: "distinct (map fst (closures st))"
    using reg by (simp add: closures_registered_def)
  have "(sid, t) \<in> set (closures st)"
    using mem by (simp add: closures_def)
  from remove1_distinct_fst [OF d this]
  have rest: "distinct (map fst (?rest @ close_listeners st))"
    "sid \<notin> fst ` set (?rest @ close_listeners st)"
    using mem by (simp_all add: closures_def remove1_append)
  have sub: "set ?rest \<subseteq> set (pending_connects st)"
    by (rule set_remove1_subset)
  let ?P = "\<lambda>c. \<exists>e. js_map_get (transports st) (fst c) = Some e \<and> transport e = snd c"
  have all: "\<forall>c \<in> set (closures st). ?P c"
    using reg by (simp add: closures_registered_def)
  have c1: "closures (apply_event st (ConnectResolved sid t)) = ?rest @ close_listeners st @ [(sid, t)]"
    and t1: "transports (apply_event st (ConnectResolved sid t)) = transports st"
    and c2: "closures (apply_event st (ConnectRejected sid t)) = ?rest @ close_listeners st"
    and t2: "transports (apply_event st (ConnectRejected sid t)) = transports st"
    using mem by (simp_all add: closures_def sse_connected_def)
  have d1: "distinct (map fst (?rest @ close_listeners st @ [(sid, t)]))"
    using rest by auto
  have "set (?rest @ close_listeners st @ [(sid, t)]) \<subseteq> set (closures st)"
    "set (?rest @ close_listeners st) \<subseteq> set (closures st)"
    using sub mem by (auto simp: closures_def)
  then have a1: "\<forall>c \<in> set (?rest @ close_listeners st @ [(sid, t)]). ?P c"
    and a2: "\<forall>c \<in> set (?rest @ close_listeners st). ?P c"
    using all by blast+
  have "closures_registered (apply_event st (ConnectResolved sid t))"
    unfolding closures_registered_def c1 t1 using d1 a1 by (rule conjI)
  moreover have "closures_registered (apply_event st (ConnectRejected sid t))"
    unfolding closures_registered_def c2 t2 using rest(1) a2 by (rule conjI)
  ultimately show ?thesis by (rule conjI)
qed

lemma current_registered_closures:
  "current_registered (st\<lparr>close_listeners := l\<rparr>) = current_registered st"
  "current_registered (st\<lparr>pending_connects := l\<rparr>) = current_registered st"
  by (cases "currentTransport st"; simp add: current_registered_def)+

text \<open>The listener of a session whose entry is its own.\<close>

lemma on_close_registered:
  assumes dist: "distinct (js_map_keys (transports st))"
    and cur: "current_registered st"
    and e: "js_map_get (transports st) sid = Some e" "transport e = t"
  shows "current_registered (on_close sid t st)"
proof (cases "currentTransport st")
  case None
  then show ?thesis by (simp add: current_registered_def on_close_simps)
next
  case (Some t')
  show ?thesis
  proof (cases "t' = t")
    case True
    then show ?thesis using Some by (simp add: current_registered_def on_close_simps)
  next
    case False
    obtain sid' e' where e': "(sid', e') \<in> set (transports st)" "transport e' = t'"
      using cur Some by (auto simp: current_registered_def)
    have "sid' \<noteq> sid"
    proof
      assume "sid' = sid"
      then have "js_map_get (transports st) sid = Some e'"
        using dist e'(1) by (simp add: js_map_mem_get)
      then show False using e e'(2) False by simp
    qed
    then have "(sid', e') \<in> set (js_map_delete sid (transports st))"
      using e'(1) by (simp add: set_js_map_delete)
    then have "t' \<in> set (map (transport \<circ> snd) (js_map_delete sid (transports st)))"
      using e'(2) by force
    then show ?thesis
      using Some False by (simp add: current_registered_def on_close_simps)
  qed
qed

text \<open>A listener that is registered runs.\<close>

lemma close_invariant:
  assumes dist: "distinct (js_map_keys (transports st))"
    and cur: "current_registered st"
    and reg: "closures_registered st"
    and mem: "(sid, t) \<in> set (close_listeners st)"
  shows "current_registered (apply_event st (Close sid t))
       \<and> closures_registered (apply_event st (Close sid t))"
proof -
  have in_closures: "(sid, t) \<in> set (closures st)"
    using mem by (simp add: closures_def)
  then obtain e where e: "js_map_get (transports st) sid = Some e" "transport e = t"
    using reg by (auto simp: closures_registered_def)
  have "current_registered (on_close sid t st)"
    using dist cur e by (rule on_close_registered)
  then have cur': "current_registered (apply_event st (Close sid t))"
    using mem by (simp add: current_registered_closures)
  have d: "distinct (map fst (closures st))"
    using reg by (simp add: closures_registered_def)
  let ?rest = "remove1 (sid, t) (close_listeners st)"
  have "sid \<in> fst ` set (close_listeners st)"
    using mem by force
  then have "(sid, t) \<notin> set (pending_connects st)"
    using d by (force simp: closures_def)
  then have "remove1 (sid, t) (closures st) = pending_connects st @ ?rest"
    by (simp add: closures_def remove1_append)
  with remove1_distinct_fst [OF d in_closures]
  have rest: "distinct (map fst (pending_connects st @ ?rest))"
    "sid \<notin> fst ` set (pending_connects st @ ?rest)"
    by simp_all
  have sub: "set ?rest \<subseteq> set (close_listeners st)"
    by (rule set_remove1_subset)
  have "\<exists>e. js_map_get (js_map_delete sid (transports st)) sid' = Some e \<and> transport e = t'"
    if "(sid', t') \<in> set (pending_connects st @ ?rest)" for sid' t'
  proof -
    have "sid' \<noteq> sid" using that rest(2) by force
    moreover have "(sid', t') \<in> set (closures st)"
      using that sub by (auto simp: closures_def)
    then have "\<exists>e. js_map_get (transports st) sid' = Some e \<and> transport e = t'"
      using reg by (auto simp: closures_registered_def)
    ultimately show ?thesis by (simp add: js_map_get_delete_other)
  qed
  then have "closures_registered (apply_event st (Close sid t))"
    using rest(1) mem by (auto simp: closures_registered_def closures_def on_close_simps)
  then show ?thesis using cur' by simp
qed

text \<open>Runs whose generated identifiers are pairwise different.\<close>

lemma run_invariant:
  "distinct (generated_ids evs) \<Longrightarrow> current_registered (run evs) \<and> closures_registered (run evs)"
proof (induction evs rule: rev_induct)
  case Nil
  then show ?case
    by (simp add: run_def init_state_def current_registered_def closures_registered_def closures_def)
next
  case (snoc ev evs)
  have d: "distinct (generated_ids evs)"
    using snoc.prems by (simp add: generated_ids_snoc)
  then have IH: "current_registered (run evs)" "closures_registered (run evs)"
    using snoc.IH by simp_all
  show ?case
  proof (cases ev)
    case (SseOpen now rnd)
    then have "sessionId_v3 now rnd \<notin> set (generated_ids evs)"
      using snoc.prems by (simp add: generated_ids_snoc)
    then have "sessionId_v3 now rnd \<notin> set (js_map_keys (transports (run evs)))"
      "sessionId_v3 now rnd \<notin> fst ` set (closures (run evs))"
      using run_ids [of evs] by blast+
    then show ?thesis
      using sse_open_invariant [OF _ _ IH(2)] SseOpen by (simp add: run_snoc)
  next
    case (ConnectResolved sid t)
    show ?thesis
    proof (cases "(sid, t) \<in> set (pending_connects (run evs))")
      case True
      then have "current_registered (apply_event (run evs) ev)"
        using IH(1) ConnectResolved
        by (simp add: current_registered_closures sse_connected_def)
      then show ?thesis
        using connect_invariant [OF IH(2) True] ConnectResolved by (simp only: run_snoc)
    next
      case False
      then show ?thesis using IH ConnectResolved by (simp add: run_snoc)
    qed
  next
    case (ConnectRejected sid t)
    show ?thesis
    proof (cases "(sid, t) \<in> set (pending_connects (run evs))")
      case True
      then have "current_registered (apply_event (run evs) ev)"
        using IH(1) ConnectRejected by (simp add: current_registered_closures)
      then show ?thesis
        using connect_invariant [OF IH(2) True] ConnectRejected by (simp only: run_snoc)
    next
      case False
      then show ?thesis using IH ConnectRejected by (simp add: run_snoc)
    qed
  next
    case (Close sid t)
    show ?thesis
    proof (cases "(sid, t) \<in> set (close_listeners (run evs))")
      case True
      then show ?thesis
        using close_invariant [OF run_distinct IH True] Close by (simp only: run_snoc)
    next
      case False
      then show ?thesis using IH Close by (simp add: run_snoc)
    qed
  next
    case (PostMessage req)
    then show ?thesis using IH by (simp add: run_snoc)
  qed
qed

lemma run_two_sessions:
  "run two_sessions =
     \<lparr>transports = [(sessionId_v3 1000 (lit ''a1''), \<lparr>transport = 0, server = 1\<rparr>),
                    (sessionId_v3 2000 (lit ''b2''), \<lparr>transport = 2, server = 3\<rparr>)],
      currentTransport = Some 2, next_ref = 4, pending_connects = [],
      close_listeners = [(sessionId_v3 1000 (lit ''a1''), 0), (sessionId_v3 2000 (lit ''b2''), 2)]\<rparr>"
  by (simp add: run_def two_sessions_def init_state_def sse_open_def sse_connected_def Let_def
      sessionId_v3_inj)

lemma run_colliding_sessions:
  "run colliding_sessions =
     \<lparr>transports = [], currentTransport = Some 2, next_ref = 4, pending_connects = [],
      close_listeners = [(sessionId_v3 1000 (lit ''a1''), 2)]\<rparr>"
  by (simp add: run_def colliding_sessions_def init_state_def sse_open_def sse_connected_def
      on_close_def Let_def)

lemma run_closed_session:
  "run closed_session =
     \<lparr>transports = [], currentTransport = None, next_ref = 2, pending_connects = [],
      close_listeners = []\<rparr>"
  by (simp add: run_def closed_session_def init_state_def sse_open_def sse_connected_def
      on_close_def Let_def)

lemma run_v2_same_millisecond:
  "run_v2 same_millisecond =
     \<lparr>transports_v2 = [(lit ''1700000000000'', 1)], next_ref_v2 = 2, pending_connects_v2 = [],
      close_listeners_v2 = [lit ''1700000000000'', lit ''1700000000000'']\<rparr>"
  by (simp add: run_v2_def same_millisecond_def init_state_v2_def sse_open_v2_def
      sse_connected_v2_def Let_def sessionId_v2_def number_toString_example)

lemma post_message_delivered:
  "delivered_to (post_message lib st req) = (if has_handlePostMessage lib then currentTransport st else None)"
  by (simp add: post_message_def split: option.splits hpm_outcome.splits)

section \<open>Registering and unregistering\<close>

lemma js_map_size_set:
  "js_map_size (js_map_set k v m) =
     (if js_map_get m k = None then js_map_size m + 1 else js_map_size m)"
  by (induction m) (auto simp: js_map_size_def)

lemma js_map_delete_set_same:
  "js_map_get m k = None \<Longrightarrow> js_map_delete k (js_map_set k v m) = m"
  by (induction m) (auto split: if_splits)

lemma js_map_delete_set_other:
  "k' \<noteq> k \<Longrightarrow> js_map_delete k (js_map_set k' v m) = js_map_set k' v (js_map_delete k m)"
  by (induction m) auto

lemma on_close_idem: "on_close sid t (on_close sid t st) = on_close sid t st"
  by (simp add: on_close_def js_map_delete_idem)

lemma on_close_v2_idem: "on_close_v2 sid (on_close_v2 sid st) = on_close_v2 sid st"
  by (simp add: on_close_v2_def js_map_delete_idem)

lemma register_then_unregister:
  assumes "sessionId_v3 n1 r1 \<noteq> sessionId_v3 n2 r2"
    and "js_map_get (transports st) (sessionId_v3 n1 r1) = None"
  shows "transports (on_close (sessionId_v3 n1 r1) t (sse_open n2 r2 (sse_open n1 r1 st)))
       = js_map_set (sessionId_v3 n2 r2) \<lparr>transport = next_ref st + 2, server = next_ref st + 3\<rparr>
           (transports st)"
proof -
  have three: "next_ref st + 3 = Suc (Suc (Suc (next_ref st)))"
    by simp
  show ?thesis
    using assms
    by (simp add: on_close_simps sse_open_simps js_map_delete_set_other js_map_delete_set_same
        three)
qed

lemma register_then_unregister_v2:
  assumes "sessionId_v2 n1 \<noteq> sessionId_v2 n2"
    and "js_map_get (transports_v2 st) (sessionId_v2 n1) = None"
  shows "transports_v2 (on_close_v2 (sessionId_v2 n1) (sse_open_v2 n2 (sse_open_v2 n1 st)))
       = js_map_set (sessionId_v2 n2) (next_ref_v2 st + 1) (transports_v2 st)"
  using assms
  by (simp add: on_close_v2_def sse_open_v2_def Let_def js_map_delete_set_other js_map_delete_set_same)

text \<open>
  C3. Registering is what the \<^verbatim>\<open>/sse\<close> handler does with
  \<^verbatim>\<open>transports.set(sessionId, ...)\<close>, unregistering is what the
  \<^verbatim>\<open>close\<close> listener does with \<^verbatim>\<open>transports.delete(sessionId)\<close>, and a
  lookup is \<^verbatim>\<open>transports.get(id)\<close>, in part_000 and in mcp-server/src/index.ts.
  After the handler the lookup of its identifier returns the entry just made, whether the
  identifier was registered before or not; every other identifier is as it was; the
  number of entries grows by one for a new identifier and stays for one that is
  overwritten. After the listener the lookup of its identifier reports absence; every
  other identifier is as it was; the registry is unchanged when the identifier was absent;
  running the listener twice is running it once. For two connections with different
  identifiers, the first of which was not registered before, opening both and closing the
  first leaves the registry as if the second alone had been opened: from the empty
  registry, exactly one entry, that of the second.
\<close>

theorem registry_contract:
  "js_map_get (transports (sse_open now rnd st)) (sessionId_v3 now rnd)
     = Some \<lparr>transport = next_ref st, server = next_ref st + 1\<rparr>
   \<and> (k \<noteq> sessionId_v3 now rnd \<longrightarrow>
        js_map_get (transports (sse_open now rnd st)) k = js_map_get (transports st) k)
   \<and> js_map_size (transports (sse_open now rnd st))
       = (if js_map_get (transports st) (sessionId_v3 now rnd) = None
          then js_map_size (transports st) + 1 else js_map_size (transports st))
   \<and> js_map_get (transports (on_close sid t st)) sid = None
   \<and> (k \<noteq> sid \<longrightarrow> js_map_get (transports (on_close sid t st)) k = js_map_get (transports st) k)
   \<and> (js_map_get (transports st) sid = None \<longrightarrow> transports (on_close sid t st) = transports st)
   \<and> on_close sid t (on_close sid t st) = on_close sid t st
   \<and> js_map_get (transports_v2 (sse_open_v2 now st2)) (sessionId_v2 now) = Some (next_ref_v2 st2)
   \<and> (k \<noteq> sessionId_v2 now \<longrightarrow>
        js_map_get (transports_v2 (sse_open_v2 now st2)) k = js_map_get (transports_v2 st2) k)
   \<and> js_map_size (transports_v2 (sse_open_v2 now st2))
       = (if js_map_get (transports_v2 st2) (sessionId_v2 now) = None
          then js_map_size (transports_v2 st2) + 1 else js_map_size (transports_v2 st2))
   \<and> js_map_get (transports_v2 (on_close_v2 sid st2)) sid = None
   \<and> (k \<noteq> sid \<longrightarrow>
        js_map_get (transports_v2 (on_close_v2 sid st2)) k = js_map_get (transports_v2 st2) k)
   \<and> (js_map_get (transports_v2 st2) sid = None \<longrightarrow> on_close_v2 sid st2 = st2)
   \<and> on_close_v2 sid (on_close_v2 sid st2) = on_close_v2 sid st2
   \<and> (sessionId_v3 n1 r1 \<noteq> sessionId_v3 n2 r2
        \<and> js_map_get (transports st) (sessionId_v3 n1 r1) = None \<longrightarrow>
        transports (on_close (sessionId_v3 n1 r1) t (sse_open n2 r2 (sse_open n1 r1 st)))
          = js_map_set (sessionId_v3 n2 r2) \<lparr>transport = next_ref st + 2, server = next_ref st + 3\<rparr>
              (transports st))
   \<and> (sessionId_v3 n1 r1 \<noteq> sessionId_v3 n2 r2 \<longrightarrow>
        transports (on_close (sessionId_v3 n1 r1) t (sse_open n2 r2 (sse_open n1 r1 init_state)))
          = [(sessionId_v3 n2 r2, \<lparr>transport = 2, server = 3\<rparr>)]
        \<and> js_map_size (transports
              (on_close (sessionId_v3 n1 r1) t (sse_open n2 r2 (sse_open n1 r1 init_state)))) = 1)
   \<and> (sessionId_v2 n1 \<noteq> sessionId_v2 n2
        \<and> js_map_get (transports_v2 st2) (sessionId_v2 n1) = None \<longrightarrow>
        transports_v2 (on_close_v2 (sessionId_v2 n1) (sse_open_v2 n2 (sse_open_v2 n1 st2)))
          = js_map_set (sessionId_v2 n2) (next_ref_v2 st2 + 1) (transports_v2 st2))
   \<and> (sessionId_v2 n1 \<noteq> sessionId_v2 n2 \<longrightarrow>
        transports_v2 (on_close_v2 (sessionId_v2 n1) (sse_open_v2 n2 (sse_open_v2 n1 init_state_v2)))
          = [(sessionId_v2 n2, 1)]
        \<and> js_map_size (transports_v2
              (on_close_v2 (sessionId_v2 n1) (sse_open_v2 n2 (sse_open_v2 n1 init_state_v2)))) = 1)"
proof -
  have reg3: "js_map_get (transports (sse_open now rnd st)) (sessionId_v3 now rnd)
     = Some \<lparr>transport = next_ref st, server = next_ref st + 1\<rparr>"
    "k \<noteq> sessionId_v3 now rnd \<longrightarrow>
        js_map_get (transports (sse_open now rnd st)) k = js_map_get (transports st) k"
    "js_map_size (transports (sse_open now rnd st))
       = (if js_map_get (transports st) (sessionId_v3 now rnd) = None
          then js_map_size (transports st) + 1 else js_map_size (transports st))"
    by (simp_all add: sse_open_simps js_map_get_set_same js_map_get_set_other js_map_size_set)
  have unreg3: "js_map_get (transports (on_close sid t st)) sid = None"
    "k \<noteq> sid \<longrightarrow> js_map_get (transports (on_close sid t st)) k = js_map_get (transports st) k"
    "js_map_get (transports st) sid = None \<longrightarrow> transports (on_close sid t st) = transports st"
    by (simp_all add: on_close_simps js_map_get_delete_same js_map_get_delete_other
        js_map_delete_absent)
  have reg2: "js_map_get (transports_v2 (sse_open_v2 now st2)) (sessionId_v2 now) = Some (next_ref_v2 st2)"
    "k \<noteq> sessionId_v2 now \<longrightarrow>
        js_map_get (transports_v2 (sse_open_v2 now st2)) k = js_map_get (transports_v2 st2) k"
    "js_map_size (transports_v2 (sse_open_v2 now st2))
       = (if js_map_get (transports_v2 st2) (sessionId_v2 now) = None
          then js_map_size (transports_v2 st2) + 1 else js_map_size (transports_v2 st2))"
    by (simp_all add: sse_open_v2_simps js_map_get_set_same js_map_get_set_other js_map_size_set)
  have unreg2: "js_map_get (transports_v2 (on_close_v2 sid st2)) sid = None"
    "k \<noteq> sid \<longrightarrow>
        js_map_get (transports_v2 (on_close_v2 sid st2)) k = js_map_get (transports_v2 st2) k"
    "js_map_get (transports_v2 st2) sid = None \<longrightarrow> on_close_v2 sid st2 = st2"
    by (simp_all add: on_close_v2_def js_map_get_delete_same js_map_get_delete_other
        js_map_delete_absent)
  have two3: "sessionId_v3 n1 r1 \<noteq> sessionId_v3 n2 r2
        \<and> js_map_get (transports st) (sessionId_v3 n1 r1) = None \<longrightarrow>
        transports (on_close (sessionId_v3 n1 r1) t (sse_open n2 r2 (sse_open n1 r1 st)))
          = js_map_set (sessionId_v3 n2 r2) \<lparr>transport = next_ref st + 2, server = next_ref st + 3\<rparr>
              (transports st)"
    using register_then_unregister by blast
  have init3: "sessionId_v3 n1 r1 \<noteq> sessionId_v3 n2 r2 \<longrightarrow>
        transports (on_close (sessionId_v3 n1 r1) t (sse_open n2 r2 (sse_open n1 r1 init_state)))
          = [(sessionId_v3 n2 r2, \<lparr>transport = 2, server = 3\<rparr>)]
        \<and> js_map_size (transports
              (on_close (sessionId_v3 n1 r1) t (sse_open n2 r2 (sse_open n1 r1 init_state)))) = 1"
    using register_then_unregister [of n1 r1 n2 r2 init_state t]
    by (simp add: init_state_def js_map_size_def)
  have two2: "sessionId_v2 n1 \<noteq> sessionId_v2 n2
        \<and> js_map_get (transports_v2 st2) (sessionId_v2 n1) = None \<longrightarrow>
        transports_v2 (on_close_v2 (sessionId_v2 n1) (sse_open_v2 n2 (sse_open_v2 n1 st2)))
          = js_map_set (sessionId_v2 n2) (next_ref_v2 st2 + 1) (transports_v2 st2)"
    using register_then_unregister_v2 by blast
  have init2: "sessionId_v2 n1 \<noteq> sessionId_v2 n2 \<longrightarrow>
        transports_v2 (on_close_v2 (sessionId_v2 n1) (sse_open_v2 n2 (sse_open_v2 n1 init_state_v2)))
          = [(sessionId_v2 n2, 1)]
        \<and> js_map_size (transports_v2
              (on_close_v2 (sessionId_v2 n1) (sse_open_v2 n2 (sse_open_v2 n1 init_state_v2)))) = 1"
    using register_then_unregister_v2 [of n1 n2 init_state_v2]
    by (simp add: init_state_v2_def js_map_size_def)
  show ?thesis
    by (intro conjI reg3 unreg3 on_close_idem reg2 unreg2 on_close_v2_idem two3 init3 two2 init2)
qed

theorem registry_contract_witness:
  "sessionId_v3 1000 (lit ''a1'') \<noteq> sessionId_v3 2000 (lit ''b2'')
   \<and> js_map_get (transports init_state) (sessionId_v3 1000 (lit ''a1'')) = None
   \<and> js_map_get (transports (sse_open 1000 (lit ''a1'') init_state)) (sessionId_v3 1000 (lit ''a1''))
       = Some \<lparr>transport = 0, server = 1\<rparr>
   \<and> js_map_get (transports (sse_open 1000 (lit ''a1'') init_state)) (sessionId_v3 2000 (lit ''b2''))
       = None
   \<and> js_map_size (transports (sse_open 1000 (lit ''a1'') init_state)) = 1
   \<and> transports (on_close (sessionId_v3 2000 (lit ''b2'')) 7 init_state) = []
   \<and> transports (on_close (sessionId_v3 1000 (lit ''a1'')) 0
        (sse_open 2000 (lit ''b2'') (sse_open 1000 (lit ''a1'') init_state)))
       = [(sessionId_v3 2000 (lit ''b2''), \<lparr>transport = 2, server = 3\<rparr>)]
   \<and> sessionId_v2 1000 \<noteq> sessionId_v2 2000
   \<and> js_map_get (transports_v2 (sse_open_v2 1000 init_state_v2)) (sessionId_v2 1000) = Some 0
   \<and> on_close_v2 (sessionId_v2 1000) init_state_v2 = init_state_v2
   \<and> js_map_size (transports_v2 (on_close_v2 (sessionId_v2 1000)
        (sse_open_v2 2000 (sse_open_v2 1000 init_state_v2)))) = 1"
proof -
  have h: "sessionId_v3 1000 (lit ''a1'') \<noteq> sessionId_v3 2000 (lit ''b2'')"
    "sessionId_v3 2000 (lit ''b2'') \<noteq> sessionId_v3 1000 (lit ''a1'')"
    "sessionId_v2 1000 \<noteq> sessionId_v2 2000"
    by (simp_all add: sessionId_v3_inj sessionId_v2_inj)
  have i: "transports init_state = []" "next_ref init_state = 0"
    "transports_v2 init_state_v2 = []" "next_ref_v2 init_state_v2 = 0"
    by (simp_all add: init_state_def init_state_v2_def)
  show ?thesis
    using h i
      registry_contract [where now = 1000 and rnd = "lit ''a1''" and st = init_state
        and k = "sessionId_v3 2000 (lit ''b2'')" and sid = "sessionId_v3 2000 (lit ''b2'')"
        and t = 7 and ?st2.0 = init_state_v2 and ?n1.0 = 1000 and ?r1.0 = "lit ''a1''"
        and ?n2.0 = 2000 and ?r2.0 = "lit ''b2''"]
      registry_contract [where now = 1000 and rnd = "lit ''a1''" and st = init_state
        and k = "sessionId_v3 2000 (lit ''b2'')" and sid = "sessionId_v2 1000"
        and t = 0 and ?st2.0 = init_state_v2 and ?n1.0 = 1000 and ?r1.0 = "lit ''a1''"
        and ?n2.0 = 2000 and ?r2.0 = "lit ''b2''"]
    by (simp add: js_map_size_def)
qed

section \<open>Routing of posted messages\<close>

text \<open>
  C1, amended. In part_000 a posted message is delivered to the transport marked most
  recent, if there is one (and the transport class has \<^verbatim>\<open>handlePostMessage\<close>),
  whatever session identifier the request is correlated with: the identifier is not read
  and the map is not consulted. This is the routing of the specification when the request
  has no identifier or its identifier is not in the map. In mcp-server/src/index.ts a
  posted message is delivered to no transport.
\<close>

theorem post_message_routes_to_current:
  "delivered_to (post_message lib st req) = (if has_handlePostMessage lib then currentTransport st else None)
   \<and> delivered_to (post_message lib st (req\<lparr>session_id := sid'\<rparr>)) = delivered_to (post_message lib st req)
   \<and> (has_handlePostMessage lib
        \<and> (session_id req = None
            \<or> (\<exists>sid. session_id req = Some sid \<and> js_map_get (transports st) sid = None)) \<longrightarrow>
        delivered_to (post_message lib st req) = spec_route st req)
   \<and> delivered_to (post_message_v2 st2 req) = None"
  by (auto simp: post_message_delivered spec_route_def post_message_v2_def)

theorem post_message_routes_to_current_witness:
  "has_handlePostMessage lib0
   \<and> js_map_get (transports (run two_sessions)) (lit ''session-9-zz'') = None
   \<and> delivered_to (post_message lib0 (run two_sessions) \<lparr>session_id = Some (lit ''session-9-zz''), body = lit ''{}''\<rparr>)
       = Some 2
   \<and> spec_route (run two_sessions) \<lparr>session_id = Some (lit ''session-9-zz''), body = lit ''{}''\<rparr> = Some 2"
proof -
  let ?req = "\<lparr>session_id = Some (lit ''session-9-zz''), body = lit ''{}''\<rparr>"
  have a: "has_handlePostMessage lib0" by (simp add: lib0_def)
  have "lit ''session-9-zz'' = sessionId_v3 9 (lit ''zz'')"
    by (simp add: sessionId_v3_def number_toString.simps digit_char_def lit_def)
  then have b: "js_map_get (transports (run two_sessions)) (lit ''session-9-zz'') = None"
    by (simp add: run_two_sessions sessionId_v3_inj)
  have c: "currentTransport (run two_sessions) = Some 2"
    by (simp add: run_two_sessions)
  note routes = post_message_routes_to_current [of lib0 "run two_sessions" ?req None init_state_v2]
  have d: "delivered_to (post_message lib0 (run two_sessions) ?req) = Some 2"
    using routes a c by simp
  have r: "delivered_to (post_message lib0 (run two_sessions) ?req) = spec_route (run two_sessions) ?req"
    by (rule routes [THEN conjunct2, THEN conjunct2, THEN conjunct1, THEN mp]) (simp add: a b)
  have e: "spec_route (run two_sessions) ?req = Some 2"
    by (simp only: r [symmetric] d)
  show ?thesis
    by (intro conjI a b d e)
qed

text \<open>
  C1 as it is stated fails with two sessions open and a message correlated with the
  first: its identifier is in the map with transport 0, and the message is delivered to
  transport 2, the most recent.
\<close>

theorem post_message_ignores_session_id_counterexample:
  "delivered_to (post_message lib0 (run two_sessions)
       \<lparr>session_id = Some (sessionId_v3 1000 (lit ''a1'')), body = lit ''{}''\<rparr>) = Some 2
   \<and> spec_route (run two_sessions)
       \<lparr>session_id = Some (sessionId_v3 1000 (lit ''a1'')), body = lit ''{}''\<rparr> = Some 0"
  by (simp add: run_two_sessions post_message_def lib0_def spec_route_def)

section \<open>Session identifiers in the registry\<close>

text \<open>
  C4, amended. In every reachable state of either registry the keys of the map are
  pairwise different, so a session identifier has at most one entry. The identifier of
  mcp-server/src/index.ts is the decimal numeral of the clock reading, so two connections
  get different identifiers exactly when their clock readings differ; the identifier of
  part_000 determines the clock reading and the random suffix, so two connections get
  different identifiers exactly when they differ in one of the two. Nothing makes the
  identifiers of two connections differ otherwise.
\<close>

theorem session_ids:
  "distinct (js_map_keys (transports (run evs)))
   \<and> ((sid, e) \<in> set (transports (run evs)) \<and> (sid, e') \<in> set (transports (run evs)) \<longrightarrow> e = e')
   \<and> distinct (js_map_keys (transports_v2 (run_v2 evs2)))
   \<and> ((sid, t) \<in> set (transports_v2 (run_v2 evs2)) \<and> (sid, t') \<in> set (transports_v2 (run_v2 evs2))
        \<longrightarrow> t = t')
   \<and> (sessionId_v2 m1 = sessionId_v2 m2 \<longleftrightarrow> m1 = m2)
   \<and> (sessionId_v3 n1 r1 = sessionId_v3 n2 r2 \<longleftrightarrow> n1 = n2 \<and> r1 = r2)"
proof -
  have one: "distinct (js_map_keys m) \<Longrightarrow> (k, v) \<in> set m \<and> (k, v') \<in> set m \<longrightarrow> v = v'"
    for m :: "(js_string, 'v) js_map" and k v v'
    using js_map_mem_get [of m k v] js_map_mem_get [of m k v'] by auto
  show ?thesis
    using one [OF run_distinct, of sid e evs e'] one [OF run_v2_distinct, of sid t evs2 t']
    by (simp add: run_distinct run_v2_distinct sessionId_v2_inj sessionId_v3_inj)
qed

theorem session_ids_witness:
  "(sessionId_v3 1000 (lit ''a1''), \<lparr>transport = 0, server = 1\<rparr>) \<in> set (transports (run two_sessions))
   \<and> (lit ''1700000000000'', 1) \<in> set (transports_v2 (run_v2 same_millisecond))
   \<and> distinct (js_map_keys (transports (run two_sessions)))
   \<and> distinct (js_map_keys (transports_v2 (run_v2 same_millisecond)))
   \<and> sessionId_v3 1000 (lit ''a1'') \<noteq> sessionId_v3 2000 (lit ''b2'')
   \<and> sessionId_v3 1000 (lit ''a1'') \<noteq> sessionId_v3 1000 (lit ''b2'')
   \<and> sessionId_v2 1000 \<noteq> sessionId_v2 1001"
proof -
  have m: "(sessionId_v3 1000 (lit ''a1''), \<lparr>transport = 0, server = 1\<rparr>)
      \<in> set (transports (run two_sessions))"
    "(lit ''1700000000000'', 1) \<in> set (transports_v2 (run_v2 same_millisecond))"
    by (simp_all add: run_two_sessions run_v2_same_millisecond)
  note ids = session_ids [of two_sessions _ _ _ same_millisecond _ _ 1000 1001 1000 "lit ''a1''"]
  have "sessionId_v3 1000 (lit ''a1'') \<noteq> sessionId_v3 2000 (lit ''b2'')"
    "sessionId_v3 1000 (lit ''a1'') \<noteq> sessionId_v3 1000 (lit ''b2'')"
    "sessionId_v2 1000 \<noteq> sessionId_v2 1001"
    using ids [of _ _ _ _ _ 2000 "lit ''b2''"] ids [of _ _ _ _ _ 1000 "lit ''b2''"]
    by simp_all
  then show ?thesis
    using m ids [of _ _ _ _ _ 2000 "lit ''b2''"] by simp
qed

text \<open>
  C4 as it is stated fails for two connections opened in the same millisecond in
  mcp-server/src/index.ts: both get the identifier "1700000000000", two listeners are
  registered under it, and the map holds one entry, the transport of the second.
\<close>

theorem same_millisecond_same_id_counterexample:
  "close_listeners_v2 (run_v2 same_millisecond) = [lit ''1700000000000'', lit ''1700000000000'']
   \<and> transports_v2 (run_v2 same_millisecond) = [(lit ''1700000000000'', 1)]"
  by (simp add: run_v2_same_millisecond)

section \<open>The most-recent transport\<close>

text \<open>
  C9, amended. In every state reached by a run whose generated session identifiers are
  pairwise different, \<^verbatim>\<open>currentTransport\<close> is \<^verbatim>\<open>null\<close> or the transport of an
  entry of the map. The close listener makes \<^verbatim>\<open>currentTransport\<close>
  \<^verbatim>\<open>null\<close> exactly when it was already so or the closing transport is the current
  one, and leaves it as it was otherwise; it preserves the invariant when the entry of its
  identifier holds its own transport. After the most recent session has closed, a posted
  message is answered 202 and delivered to nothing, also when older sessions are still in
  the map.
\<close>

theorem current_transport_registered:
  "(distinct (generated_ids evs) \<longrightarrow> current_registered (run evs))
   \<and> (currentTransport (on_close sid t st) = None
        \<longleftrightarrow> currentTransport st = None \<or> currentTransport st = Some t)
   \<and> (currentTransport st \<noteq> Some t \<longrightarrow> currentTransport (on_close sid t st) = currentTransport st)
   \<and> (distinct (js_map_keys (transports st)) \<and> current_registered st
        \<and> js_map_get (transports st) sid = Some e \<and> transport e = t \<longrightarrow>
        current_registered (on_close sid t st))
   \<and> (currentTransport st = Some t \<longrightarrow>
        post_message lib (on_close sid t st) req = \<lparr>delivered_to = None, status = 202\<rparr>)"
proof -
  have a: "distinct (generated_ids evs) \<longrightarrow> current_registered (run evs)"
    using run_invariant by blast
  have b: "distinct (js_map_keys (transports st)) \<and> current_registered st
        \<and> js_map_get (transports st) sid = Some e \<and> transport e = t \<longrightarrow>
        current_registered (on_close sid t st)"
    using on_close_registered by blast
  have c: "currentTransport st = Some t \<longrightarrow>
        post_message lib (on_close sid t st) req = \<lparr>delivered_to = None, status = 202\<rparr>"
    by (simp add: post_message_def on_close_simps)
  show ?thesis
    using a b c by (auto simp: on_close_simps)
qed

theorem current_transport_registered_witness:
  "distinct (generated_ids two_sessions)
   \<and> current_registered (run two_sessions)
   \<and> currentTransport (run two_sessions) = Some 2
   \<and> transports (on_close (sessionId_v3 2000 (lit ''b2'')) 2 (run two_sessions))
       = [(sessionId_v3 1000 (lit ''a1''), \<lparr>transport = 0, server = 1\<rparr>)]
   \<and> currentTransport (on_close (sessionId_v3 2000 (lit ''b2'')) 2 (run two_sessions)) = None
   \<and> current_registered (on_close (sessionId_v3 2000 (lit ''b2'')) 2 (run two_sessions))
   \<and> post_message lib0 (on_close (sessionId_v3 2000 (lit ''b2'')) 2 (run two_sessions))
       \<lparr>session_id = None, body = lit ''{}''\<rparr> = \<lparr>delivered_to = None, status = 202\<rparr>"
proof -
  have d: "distinct (generated_ids two_sessions)"
    by (simp add: two_sessions_def sessionId_v3_inj)
  have k: "distinct (js_map_keys (transports (run two_sessions)))"
    by (simp add: run_two_sessions js_map_keys_def sessionId_v3_inj)
  have g: "js_map_get (transports (run two_sessions)) (sessionId_v3 2000 (lit ''b2''))
      = Some \<lparr>transport = 2, server = 3\<rparr>"
    by (simp add: run_two_sessions sessionId_v3_inj)
  have c: "currentTransport (run two_sessions) = Some 2"
    by (simp add: run_two_sessions)
  have t: "transports (on_close (sessionId_v3 2000 (lit ''b2'')) 2 (run two_sessions))
       = [(sessionId_v3 1000 (lit ''a1''), \<lparr>transport = 0, server = 1\<rparr>)]"
    by (simp add: run_two_sessions on_close_def sessionId_v3_inj)
  show ?thesis
    using d k g c t
      current_transport_registered [of two_sessions "sessionId_v3 2000 (lit ''b2'')" 2
        "run two_sessions" "\<lparr>transport = 2, server = 3\<rparr>" lib0
        "\<lparr>session_id = None, body = lit ''{}''\<rparr>"]
    by simp
qed

text \<open>
  C9 as it is stated fails when two connections get the same identifier: the second
  overwrites the entry of the first, the close listener of the first deletes that entry
  and leaves \<^verbatim>\<open>currentTransport\<close>, which is then the transport of no entry.
\<close>

theorem colliding_ids_counterexample:
  "transports (run colliding_sessions) = []
   \<and> currentTransport (run colliding_sessions) = Some 2
   \<and> \<not> current_registered (run colliding_sessions)"
  by (simp add: run_colliding_sessions current_registered_def)

section \<open>Messages without a transport\<close>

text \<open>
  C2, amended. In part_000 a message posted while there is no current transport is
  answered 202 and delivered to nothing: so it is in the initial state, where no session
  was ever registered, and in every state with an empty map reached by a run whose
  generated identifiers are pairwise different. In mcp-server/src/index.ts every posted
  message is answered 200 and delivered to nothing. Neither answer is an error status.
\<close>

theorem post_message_without_transport:
  "(currentTransport st = None \<longrightarrow> post_message lib st req = \<lparr>delivered_to = None, status = 202\<rparr>)
   \<and> post_message lib init_state req = \<lparr>delivered_to = None, status = 202\<rparr>
   \<and> (distinct (generated_ids evs) \<and> transports (run evs) = [] \<longrightarrow>
        post_message lib (run evs) req = \<lparr>delivered_to = None, status = 202\<rparr>)
   \<and> post_message_v2 st2 req = \<lparr>delivered_to = None, status = 200\<rparr>"
proof -
  have a: "currentTransport st = None \<longrightarrow> post_message lib st req = \<lparr>delivered_to = None, status = 202\<rparr>"
    for st
    by (simp add: post_message_def)
  have "currentTransport (run evs) = None"
    if "distinct (generated_ids evs)" "transports (run evs) = []"
    using run_invariant [OF that(1)] that(2)
    by (cases "currentTransport (run evs)") (simp_all add: current_registered_def)
  then show ?thesis
    using a [of st] a [of init_state] a [of "run evs"]
    by (auto simp: init_state_def post_message_v2_def)
qed

theorem post_message_without_transport_witness:
  "distinct (generated_ids closed_session)
   \<and> transports (run closed_session) = []
   \<and> post_message lib0 (run closed_session) \<lparr>session_id = None, body = lit ''{}''\<rparr>
       = \<lparr>delivered_to = None, status = 202\<rparr>"
proof -
  have d: "distinct (generated_ids closed_session)"
    by (simp add: closed_session_def)
  have t: "transports (run closed_session) = []"
    by (simp add: run_closed_session)
  show ?thesis
    using d t post_message_without_transport [of "run closed_session" lib0
        "\<lparr>session_id = None, body = lit ''{}''\<rparr>" closed_session init_state_v2]
    by simp
qed

text \<open>
  C2 as it is stated fails in part_000 with no session registered: after two connections
  with the same identifier and the close of the first, the map is empty and a posted
  message is still handed to the transport of the second, whose answer is the answer. In
  mcp-server/src/index.ts the answer is 200, with no session registered as with any.
\<close>

theorem empty_registry_delivers_counterexample:
  "transports (run colliding_sessions) = []
   \<and> js_map_size (transports (run colliding_sessions)) = 0
   \<and> post_message lib_rejecting (run colliding_sessions) \<lparr>session_id = None, body = lit ''{}''\<rparr>
       = \<lparr>delivered_to = Some 2, status = 400\<rparr>
   \<and> transports_v2 init_state_v2 = []
   \<and> post_message_v2 init_state_v2 \<lparr>session_id = None, body = lit ''{}''\<rparr>
       = \<lparr>delivered_to = None, status = 200\<rparr>"
  by (simp add: run_colliding_sessions post_message_def lib_rejecting_def js_map_size_def
      init_state_v2_def post_message_v2_def)

end
